theory Spec2Isabelle
  imports Complex_Main
begin

section \<open>Data model (src/types.ts and the state of the App component, src/App.tsx)\<close>

text \<open>
  JavaScript numbers are modelled as exact reals: the rounding of IEEE doubles is not
  modelled. The values on which a claim is refuted below (times of 0, 100, 250, 500 and
  1000 ms, the speeds 1 and 1/2) are whole numbers or halves, and the results stated
  for them are computed without rounding in doubles as well. The field \<open>note\<close> of
  \<open>SongNote\<close> is called \<open>noteName\<close> here, since \<open>note\<close> is a reserved word of the
  proof language.
\<close>

datatype AppState = IDLE | LOADING | LOADED | PLAYING | PAUSED | ERROR | LEARNING

record SongNote =
  noteName :: string
  duration :: real
  startTime :: real

text \<open>The state \<open>highlightedNoteInfo\<close>: \<open>{ note: string | null; startTime: number | null }\<close>.\<close>

record HighlightedNoteInfo =
  hlNote :: "string option"
  hlStartTime :: "real option"

definition noHighlight :: HighlightedNoteInfo where
  "noHighlight = \<lparr>hlNote = None, hlStartTime = None\<rparr>"

text \<open>
  An oscillator and gain pair. The model keeps the oscillator's frequency, the instant
  given to \<open>oscillator.start\<close> and the instant of the last accepted \<open>oscillator.stop\<close>
  (\<open>None\<close>: stop was never called), all on the audio clock in seconds. The gain envelope
  (the fades) is audio rendering and is not modelled.
\<close>

record AudioNodes =
  frequency :: real
  startAt :: real
  stopAt :: "real option"

text \<open>
  The callbacks handed to \<open>setTimeout\<close> in App.tsx, one constructor per callback:
  the note highlight and the end of the song (armed by \<open>scheduleSong\<close>), the two
  feedback pulses and the completion of learning mode (armed by \<open>onNoteDown\<close>).
\<close>

datatype TimerAction =
    Highlight string real
  | SongEnd
  | ClearCorrectPress
  | ClearIncorrectPress
  | LearningDone

record Timer =
  timerId :: nat
  delayMs :: real
  action :: TimerAction

datatype ErrorInfo = AudioError | GenerationFailed | ConfigurationError

datatype Exn = InvalidStateError

text \<open>
  What the code cannot know about the browser: whether an \<open>AudioContext\<close> can be
  created, and whether \<open>oscillator.stop\<close> throws on an oscillator whose stop was
  already requested (the comment in \<open>stopAllSounds\<close>, "Ignore errors from stopping
  already stopped nodes", expects that it can).
\<close>

record Platform =
  audioSupported :: bool
  stopThrowsWhenStopped :: bool

text \<open>
  The React state and the refs of the App component, and the browser's queue of
  pending timers. \<open>manualNodes\<close> is the \<open>Map\<close> of held notes in insertion order.
  \<open>audioContext\<close> says whether \<open>audioContextRef.current\<close> is set.
\<close>

record App =
  appState :: AppState
  song :: "SongNote list option"
  highlightedNoteInfo :: HighlightedNoteInfo
  activeNotes :: "string set"
  errorInfo :: "ErrorInfo option"
  playbackSpeed :: real
  learningNoteIndex :: nat
  correctPressNote :: "string option"
  incorrectPressNote :: "string option"
  completionMessage :: "string option"
  playbackProgress :: real
  audioContext :: bool
  manualNodes :: "(string \<times> AudioNodes) list"
  scheduledNodes :: "AudioNodes list"
  scheduledUiCallbacks :: "nat list"
  playbackStartTime :: real
  playbackProgressRef :: real
  appStateRef :: AppState
  playbackSpeedRef :: real
  pendingTimers :: "Timer list"
  nextTimerId :: nat

text \<open>The state of a freshly mounted component (the \<open>useState\<close> and \<open>useRef\<close> initial values).\<close>

definition initialApp :: App where
  "initialApp = \<lparr>
     appState = IDLE, song = None, highlightedNoteInfo = noHighlight, activeNotes = {},
     errorInfo = None, playbackSpeed = 1, learningNoteIndex = 0, correctPressNote = None,
     incorrectPressNote = None, completionMessage = None, playbackProgress = 0,
     audioContext = False, manualNodes = [], scheduledNodes = [], scheduledUiCallbacks = [],
     playbackStartTime = 0, playbackProgressRef = 0, appStateRef = IDLE, playbackSpeedRef = 1,
     pendingTimers = [], nextTimerId = 1\<rparr>"

text \<open>
  A handler either returns or lets an exception escape; in both cases the mutations made
  so far stay, so both outcomes carry the state.
\<close>

datatype Outcome = Returned App | Thrown Exn App

definition andThen :: "Outcome \<Rightarrow> (App \<Rightarrow> Outcome) \<Rightarrow> Outcome" where
  "andThen r f = (case r of Returned s \<Rightarrow> f s | Thrown e s \<Rightarrow> Thrown e s)"

definition stateOf :: "Outcome \<Rightarrow> App" where
  "stateOf r = (case r of Returned s \<Rightarrow> s | Thrown e s \<Rightarrow> s)"

definition returns :: "Outcome \<Rightarrow> bool" where
  "returns r = (case r of Returned s \<Rightarrow> True | Thrown e s \<Rightarrow> False)"

section \<open>Timers\<close>

definition setTimeout :: "TimerAction \<Rightarrow> real \<Rightarrow> App \<Rightarrow> App" where
  "setTimeout a d s =
     s\<lparr>pendingTimers := pendingTimers s @ [\<lparr>timerId = nextTimerId s, delayMs = d, action = a\<rparr>],
       nextTimerId := Suc (nextTimerId s)\<rparr>"

definition clearTimeout :: "nat \<Rightarrow> App \<Rightarrow> App" where
  "clearTimeout i s = s\<lparr>pendingTimers := filter (\<lambda>t. timerId t \<noteq> i) (pendingTimers s)\<rparr>"

fun runAction :: "TimerAction \<Rightarrow> App \<Rightarrow> App" where
  "runAction (Highlight n st) s = s\<lparr>highlightedNoteInfo := \<lparr>hlNote = Some n, hlStartTime = Some st\<rparr>\<rparr>"
| "runAction SongEnd s =
     s\<lparr>appState := LOADED, highlightedNoteInfo := noHighlight,
       playbackProgressRef := 0, playbackProgress := 0\<rparr>"
| "runAction ClearCorrectPress s = s\<lparr>correctPressNote := None\<rparr>"
| "runAction ClearIncorrectPress s = s\<lparr>incorrectPressNote := None\<rparr>"
| "runAction LearningDone s =
     s\<lparr>appState := LOADED, learningNoteIndex := 0, completionMessage := None\<rparr>"

text \<open>The browser fires the pending timer \<open>i\<close>: it leaves the queue and its callback runs.\<close>

definition fireTimer :: "nat \<Rightarrow> App \<Rightarrow> App" where
  "fireTimer i s =
     (case find (\<lambda>t. timerId t = i) (pendingTimers s) of
        None \<Rightarrow> s
      | Some t \<Rightarrow> runAction (action t) (clearTimeout i s))"

section \<open>Audio engine (src/App.tsx)\<close>

definition noteFrequencies :: "(string \<times> real) list" where
  "noteFrequencies = [
     (''C3'', 130.81), (''C#3'', 138.59), (''D3'', 146.83), (''D#3'', 155.56),
     (''E3'', 164.81), (''F3'', 174.61), (''F#3'', 185.00), (''G3'', 196.00),
     (''G#3'', 207.65), (''A3'', 220.00), (''A#3'', 233.08), (''B3'', 246.94),
     (''C4'', 261.63), (''C#4'', 277.18), (''D4'', 293.66), (''D#4'', 311.13),
     (''E4'', 329.63), (''F4'', 349.23), (''F#4'', 369.99), (''G4'', 392.00),
     (''G#4'', 415.30), (''A4'', 440.00), (''A#4'', 466.16), (''B4'', 493.88),
     (''C5'', 523.25), (''C#5'', 554.37), (''D5'', 587.33), (''D#5'', 622.25),
     (''E5'', 659.25), (''F5'', 698.46), (''F#5'', 739.99), (''G5'', 783.99),
     (''G#5'', 830.61), (''A5'', 880.00), (''A#5'', 932.33), (''B5'', 987.77)]"

text \<open>
  \<open>noteFrequencies[note] || 440\<close>. The table is read here by its own keys only: a
  name that a plain object inherits from its prototype (\<open>constructor\<close>, \<open>toString\<close>) is
  looked up by the code and is not a number there; no key of the piano and no claim
  below has such a name.
\<close>

definition frequencyOf :: "string \<Rightarrow> real" where
  "frequencyOf n = (case map_of noteFrequencies n of Some f \<Rightarrow> f | None \<Rightarrow> 440)"

text \<open>
  \<open>initializeAudio\<close>: the state it leaves, and the boolean it returns. The context is
  created on the first call; where the constructor throws, the error is shown and the
  result is false.
\<close>

definition initializeAudio :: "Platform \<Rightarrow> App \<Rightarrow> App" where
  "initializeAudio pf s =
     (if audioContext s then s
      else if audioSupported pf then s\<lparr>audioContext := True\<rparr>
      else s\<lparr>errorInfo := Some AudioError\<rparr>)"

definition initializeAudioOk :: "Platform \<Rightarrow> App \<Rightarrow> bool" where
  "initializeAudioOk pf s = (audioContext s \<or> audioSupported pf)"

text \<open>\<open>oscillator.stop(when)\<close>: \<open>None\<close> when the platform throws.\<close>

definition oscillatorStop :: "Platform \<Rightarrow> real \<Rightarrow> AudioNodes \<Rightarrow> AudioNodes option" where
  "oscillatorStop pf w n =
     (if stopThrowsWhenStopped pf \<and> stopAt n \<noteq> None then None
      else Some (n\<lparr>stopAt := Some w\<rparr>))"

text \<open>
  The body of the first loop of \<open>stopAllSounds\<close>, over the scheduled nodes: it sits in
  \<open>try { ... } catch (e) { }\<close>, so a throw leaves the node as it was and the loop goes on.
\<close>

definition stopScheduledNode :: "Platform \<Rightarrow> real \<Rightarrow> AudioNodes \<Rightarrow> AudioNodes" where
  "stopScheduledNode pf t n =
     (case oscillatorStop pf (t + 0.05) n of None \<Rightarrow> n | Some n' \<Rightarrow> n')"

text \<open>
  The third loop of \<open>stopAllSounds\<close>, over the manual nodes, has no \<open>try\<close>: the first
  throw ends the loop. The result is the map as the loop leaves it and whether it threw.
\<close>

fun stopManualNodes ::
  "Platform \<Rightarrow> real \<Rightarrow> (string \<times> AudioNodes) list \<Rightarrow> (string \<times> AudioNodes) list \<times> bool" where
  "stopManualNodes pf t [] = ([], False)"
| "stopManualNodes pf t ((k, n) # rest) =
     (case oscillatorStop pf (t + 0.05) n of
        None \<Rightarrow> ((k, n) # rest, True)
      | Some n' \<Rightarrow>
          (case stopManualNodes pf t rest of (rest', thrown) \<Rightarrow> ((k, n') # rest', thrown)))"

text \<open>
  \<open>stopAllSounds\<close>, at audio time \<open>t\<close>. The loops over the nodes only run their bodies
  when the audio context exists. The scheduled nodes are stopped and the list is
  emptied, every tracked timer is cleared, then the manual nodes are stopped, the map is
  cleared and the active notes are reset; a throw in the manual loop skips the last two.
\<close>

definition stopAllSounds :: "Platform \<Rightarrow> real \<Rightarrow> App \<Rightarrow> Outcome" where
  "stopAllSounds pf t s =
     (let stopped = (if audioContext s then map (stopScheduledNode pf t) (scheduledNodes s)
                     else scheduledNodes s);
          s1 = s\<lparr>scheduledNodes := []\<rparr>;
          s2 = (fold clearTimeout (scheduledUiCallbacks s1) s1)\<lparr>scheduledUiCallbacks := []\<rparr>
      in if audioContext s2 then
           (case stopManualNodes pf t (manualNodes s2) of
              (m, True) \<Rightarrow> Thrown InvalidStateError (s2\<lparr>manualNodes := m\<rparr>)
            | (m, False) \<Rightarrow> Returned (s2\<lparr>manualNodes := [], activeNotes := {}\<rparr>))
         else Returned (s2\<lparr>manualNodes := [], activeNotes := {}\<rparr>))"

text \<open>\<open>playNote\<close>, at audio time \<open>t\<close> (\<open>oscillator.start()\<close> starts now).\<close>

definition playNote :: "Platform \<Rightarrow> real \<Rightarrow> string \<Rightarrow> App \<Rightarrow> App" where
  "playNote pf t n s =
     (let s1 = initializeAudio pf s
      in if \<not> initializeAudioOk pf s \<or> n = ''Rest'' \<or> map_of (manualNodes s1) n \<noteq> None then s1
         else s1\<lparr>manualNodes := manualNodes s1 @ [(n, \<lparr>frequency = frequencyOf n, startAt = t, stopAt = None\<rparr>)],
                activeNotes := insert n (activeNotes s1)\<rparr>)"

text \<open>\<open>stopNote\<close>, at audio time \<open>t\<close>; the node stays in the map until its \<open>onended\<close> fires.\<close>

definition stopNote :: "Platform \<Rightarrow> real \<Rightarrow> string \<Rightarrow> App \<Rightarrow> Outcome" where
  "stopNote pf t n s =
     (case map_of (manualNodes s) n of
        None \<Rightarrow> Returned s
      | Some nodePair \<Rightarrow>
          if \<not> audioContext s then Returned s
          else (case oscillatorStop pf (t + 0.1) nodePair of
                  None \<Rightarrow> Thrown InvalidStateError s
                | Some nodePair' \<Rightarrow>
                    Returned (s\<lparr>manualNodes := map (\<lambda>(k, v). if k = n then (k, nodePair') else (k, v)) (manualNodes s),
                                activeNotes := activeNotes s - {n}\<rparr>)))"

text \<open>The \<open>onended\<close> callback installed by \<open>stopNote\<close>.\<close>

definition oscillatorEnded :: "string \<Rightarrow> App \<Rightarrow> App" where
  "oscillatorEnded n s = s\<lparr>manualNodes := filter (\<lambda>(k, v). k \<noteq> n) (manualNodes s)\<rparr>"

section \<open>Schedule builder and transport (src/App.tsx)\<close>

text \<open>
  The \<open>song.forEach\<close> loop of \<open>scheduleSong\<close>: \<open>t\<close> is \<open>audioContext.currentTime\<close> read
  before the loop, \<open>off\<close> is \<open>startOffsetMs\<close> and \<open>sp\<close> the \<open>playbackSpeed\<close> of the
  closure. The state is threaded because each \<open>setTimeout\<close> arms a timer; \<open>nodes\<close> and
  \<open>ids\<close> are the local arrays \<open>scheduledNodes\<close> and \<open>uiTimeouts\<close>. The quotients are
  those of the reals: their rounding in doubles is not modelled, and a speed of 0, where
  the code divides by zero, is not among the speeds of the page (0.5 to 1.5); no
  claim below is stated at that speed.
\<close>

fun scheduleNotes ::
  "real \<Rightarrow> real \<Rightarrow> real \<Rightarrow> SongNote list \<Rightarrow> App \<Rightarrow> AudioNodes list \<Rightarrow> nat list
     \<Rightarrow> App \<times> AudioNodes list \<times> nat list" where
  "scheduleNotes t off sp [] s nodes ids = (s, nodes, ids)"
| "scheduleNotes t off sp (n # ns) s nodes ids =
     (if startTime n < off then scheduleNotes t off sp ns s nodes ids
      else
        (let startTimeSec = (startTime n - off) / (1000 * sp);
             durationSec = duration n / (1000 * sp);
             s1 = setTimeout (Highlight (noteName n) (startTime n)) (startTimeSec * 1000) s;
             ids1 = ids @ [nextTimerId s];
             nodes1 = (if noteName n \<noteq> ''Rest''
                       then nodes @ [\<lparr>frequency = frequencyOf (noteName n),
                                      startAt = t + startTimeSec,
                                      stopAt = Some (t + startTimeSec + durationSec)\<rparr>]
                       else nodes)
         in scheduleNotes t off sp ns s1 nodes1 ids1))"

text \<open>
  \<open>scheduleSong(startOffsetMs)\<close> at audio time \<open>t\<close>. It returns at once without a song
  or without audio; otherwise it tears the old plan down, runs the loop, stores the
  nodes and the timer ids, and arms the end-of-song timer from the last note of the
  song. Only a song with no note at all takes the \<open>else\<close> branch that sets LOADED.
\<close>

definition scheduleSong :: "Platform \<Rightarrow> real \<Rightarrow> real \<Rightarrow> App \<Rightarrow> Outcome" where
  "scheduleSong pf t startOffsetMs s =
     (case song s of
        None \<Rightarrow> Returned s
      | Some sg \<Rightarrow>
          if \<not> initializeAudioOk pf s then Returned (initializeAudio pf s)
          else andThen (stopAllSounds pf t (initializeAudio pf s)) (\<lambda>s1.
            (case scheduleNotes t startOffsetMs (playbackSpeed s) sg s1 [] [] of
               (s2, nodes, ids) \<Rightarrow>
                 (let s3 = s2\<lparr>scheduledNodes := nodes, scheduledUiCallbacks := ids\<rparr>
                  in if sg = [] then Returned (s3\<lparr>appState := LOADED\<rparr>)
                     else
                       (let lastNote = last sg;
                            songDurationMs =
                              (startTime lastNote + duration lastNote - startOffsetMs) / playbackSpeed s;
                            s4 = setTimeout SongEnd (songDurationMs + 100) s3
                        in Returned (s4\<lparr>scheduledUiCallbacks :=
                                          scheduledUiCallbacks s3 @ [nextTimerId s3]\<rparr>))))))"

text \<open>
  \<open>resetPlayback\<close>. Its test reads the \<open>appState\<close> of the render that created the
  closure, not a value set earlier in the same handler: \<open>rendered\<close> is that value.
\<close>

definition resetPlayback :: "Platform \<Rightarrow> real \<Rightarrow> AppState \<Rightarrow> App \<Rightarrow> Outcome" where
  "resetPlayback pf t rendered s =
     andThen (stopAllSounds pf t s) (\<lambda>s1.
       (let s2 = s1\<lparr>highlightedNoteInfo := noHighlight, playbackProgressRef := 0, playbackProgress := 0\<rparr>
        in Returned (if rendered = PLAYING \<or> rendered = PAUSED then s2\<lparr>appState := LOADED\<rparr> else s2)))"

text \<open>
  \<open>handlePlayPause\<close>, with \<open>now\<close> the value of \<open>performance.now()\<close> and \<open>t\<close> the audio
  time. The test is on PLAYING alone: every other state takes the play branch.
\<close>

definition handlePlayPause :: "Platform \<Rightarrow> real \<Rightarrow> real \<Rightarrow> App \<Rightarrow> Outcome" where
  "handlePlayPause pf now t s =
     (if appState s = PLAYING then
        (let elapsedTime = (now - playbackStartTime s) * playbackSpeed s;
             s1 = s\<lparr>playbackProgressRef := playbackProgressRef s + elapsedTime\<rparr>
         in andThen (stopAllSounds pf t s1) (\<lambda>s2. Returned (s2\<lparr>appState := PAUSED\<rparr>)))
      else
        (let s1 = s\<lparr>playbackStartTime := now\<rparr>
         in andThen (scheduleSong pf t (if appState s = PAUSED then playbackProgressRef s1 else 0) s1)
              (\<lambda>s2. Returned (s2\<lparr>appState := PLAYING\<rparr>))))"

text \<open>The effects that copy \<open>appState\<close> and \<open>playbackSpeed\<close> into their refs after a render.\<close>

definition syncRefs :: "App \<Rightarrow> App" where
  "syncRefs s = s\<lparr>appStateRef := appState s, playbackSpeedRef := playbackSpeed s\<rparr>"

text \<open>\<open>animationLoop\<close>, one frame at \<open>performance.now() = now\<close>.\<close>

definition animationLoop :: "real \<Rightarrow> App \<Rightarrow> App" where
  "animationLoop now s =
     (if appStateRef s \<noteq> PLAYING then s
      else
        (let elapsedTime = (now - playbackStartTime s) * playbackSpeedRef s;
             currentProgress = playbackProgressRef s + elapsedTime
         in s\<lparr>playbackProgress := currentProgress\<rparr>))"

text \<open>The speed select: \<open>setPlaybackSpeed(parseFloat(e.target.value))\<close>.\<close>

definition setPlaybackSpeed :: "real \<Rightarrow> App \<Rightarrow> App" where
  "setPlaybackSpeed v s = s\<lparr>playbackSpeed := v\<rparr>"

text \<open>
  The effect on \<open>[playbackSpeed, appState, scheduleSong]\<close>. It runs after the render
  that follows the change, so \<open>playbackSpeed s\<close> is already the new multiplier.
  \<open>performance.now()\<close> is read twice: \<open>now\<close> and \<open>now2\<close>.
\<close>

definition speedChangeEffect :: "Platform \<Rightarrow> real \<Rightarrow> real \<Rightarrow> real \<Rightarrow> App \<Rightarrow> Outcome" where
  "speedChangeEffect pf now now2 t s =
     (if appState s = PLAYING then
        (let elapsedTime = now - playbackStartTime s;
             currentProgress = playbackProgressRef s + elapsedTime * playbackSpeed s;
             s1 = s\<lparr>playbackStartTime := now2, playbackProgressRef := currentProgress\<rparr>
         in scheduleSong pf t currentProgress s1)
      else Returned s)"

section \<open>Learning mode (src/App.tsx)\<close>

text \<open>\<open>while (song[i] && song[i].note === 'Rest') { i++; }\<close>\<close>

function skipRests :: "SongNote list \<Rightarrow> nat \<Rightarrow> nat" where
  "skipRests sg i =
     (if i < length sg \<and> noteName (sg ! i) = ''Rest'' then skipRests sg (Suc i) else i)"
  by pat_completeness auto
termination
  by (relation "measure (\<lambda>(sg, i). length sg - i)") auto

declare skipRests.simps [simp del]

definition completionText :: string where
  "completionText = ''Congratulations! You've finished the song!''"

text \<open>\<open>onNoteDown(note)\<close> at audio time \<open>t\<close>.\<close>

definition onNoteDown :: "Platform \<Rightarrow> real \<Rightarrow> string \<Rightarrow> App \<Rightarrow> App" where
  "onNoteDown pf t n s =
     (let s0 = initializeAudio pf s
      in case song s of
           None \<Rightarrow> playNote pf t n s0
         | Some sg \<Rightarrow>
             if appState s \<noteq> LEARNING then playNote pf t n s0
             else if learningNoteIndex s < length sg \<and> n = noteName (sg ! learningNoteIndex s) then
               (let s1 = playNote pf t n s0;
                    s2 = setTimeout ClearCorrectPress 300 (s1\<lparr>correctPressNote := Some n\<rparr>);
                    nextIndex = skipRests sg (learningNoteIndex s + 1)
                in if nextIndex \<ge> length sg then
                     setTimeout LearningDone 2000 (s2\<lparr>completionMessage := Some completionText\<rparr>)
                   else s2\<lparr>learningNoteIndex := nextIndex\<rparr>)
             else setTimeout ClearIncorrectPress 300 (s0\<lparr>incorrectPressNote := Some n\<rparr>))"

text \<open>
  \<open>onNoteUp\<close> is \<open>stopNote\<close>. \<open>handleToggleLearning\<close> at audio time \<open>t\<close>: leaving learning
  mode sets the index to 0; entering it resets playback and looks for the first note
  that is not a rest.
\<close>

definition handleToggleLearning :: "Platform \<Rightarrow> real \<Rightarrow> App \<Rightarrow> Outcome" where
  "handleToggleLearning pf t s =
     (if appState s = LEARNING then
        Returned (s\<lparr>appState := LOADED, learningNoteIndex := 0, highlightedNoteInfo := noHighlight\<rparr>)
      else
        (case song s of
           None \<Rightarrow> Returned s
         | Some sg \<Rightarrow>
             if \<not> initializeAudioOk pf s then Returned (initializeAudio pf s)
             else andThen (resetPlayback pf t (appState s) (initializeAudio pf s)) (\<lambda>s1.
                    Returned (s1\<lparr>completionMessage := None,
                                 learningNoteIndex := skipRests sg 0,
                                 appState := LEARNING\<rparr>))))"

text \<open>The effect on \<open>[appState, learningNoteIndex, song, highlightedNoteInfo]\<close>.\<close>

definition learningHighlightEffect :: "App \<Rightarrow> App" where
  "learningHighlightEffect s =
     (case song s of
        Some sg \<Rightarrow>
          if appState s = LEARNING \<and> learningNoteIndex s < length sg then
            s\<lparr>highlightedNoteInfo :=
                \<lparr>hlNote = Some (noteName (sg ! learningNoteIndex s)),
                 hlStartTime = Some (startTime (sg ! learningNoteIndex s))\<rparr>\<rparr>
          else if appState s \<noteq> PLAYING \<and> appState s \<noteq> PAUSED \<and> appState s \<noteq> LEARNING then
            (if hlNote (highlightedNoteInfo s) \<noteq> None \<or> hlStartTime (highlightedNoteInfo s) \<noteq> None
             then s\<lparr>highlightedNoteInfo := noHighlight\<rparr> else s)
          else s
      | None \<Rightarrow>
          if appState s \<noteq> PLAYING \<and> appState s \<noteq> PAUSED \<and> appState s \<noteq> LEARNING then
            (if hlNote (highlightedNoteInfo s) \<noteq> None \<or> hlStartTime (highlightedNoteInfo s) \<noteq> None
             then s\<lparr>highlightedNoteInfo := noHighlight\<rparr> else s)
          else s)"

section \<open>Note generation boundary (the two versions of services/geminiService.ts)\<close>

text \<open>A value produced by \<open>JSON.parse\<close>; an object is the list of its own properties.\<close>

datatype json =
    JNull
  | JBool bool
  | JNum real
  | JStr string
  | JArr "json list"
  | JObj "(string \<times> json) list"

text \<open>
  Library functions the service calls: \<open>String.prototype.trim\<close>, \<open>JSON.parse\<close>
  (\<open>None\<close>: it throws a SyntaxError) and the match of the regular expression
  for a fenced block of the second version (\<open>None\<close>: no match; otherwise the first group).
\<close>

record Lib =
  trim :: "string \<Rightarrow> string"
  JSON_parse :: "string \<Rightarrow> json option"
  matchFence :: "string \<Rightarrow> string option"

text \<open>
  What \<open>generateContent\<close> and the read of \<open>response.text\<close> deliver: an exception, with
  the flag saying whether it is an \<open>Error\<close> whose message matches
  \<open>/api key|authentication|permission|not found/i\<close>, or the text.
\<close>

datatype GenResponse = GenFailed bool | GenText string

datatype 'a Promise = Resolved 'a | Rejected

text \<open>\<open>indexOf\<close> and \<open>lastIndexOf\<close> of a character (\<open>None\<close> for -1) and \<open>substring\<close>,
  which swaps its arguments when the first is the larger.\<close>

fun indexOf :: "char \<Rightarrow> string \<Rightarrow> nat option" where
  "indexOf c [] = None"
| "indexOf c (x # xs) =
     (if x = c then Some 0 else (case indexOf c xs of None \<Rightarrow> None | Some i \<Rightarrow> Some (Suc i)))"

fun lastIndexOf :: "char \<Rightarrow> string \<Rightarrow> nat option" where
  "lastIndexOf c [] = None"
| "lastIndexOf c (x # xs) =
     (case lastIndexOf c xs of
        Some i \<Rightarrow> Some (Suc i)
      | None \<Rightarrow> if x = c then Some 0 else None)"

definition substring :: "string \<Rightarrow> nat \<Rightarrow> nat \<Rightarrow> string" where
  "substring str a b = take (max a b - min a b) (drop (min a b) str)"

text \<open>
  \<open>'k' in n\<close>: \<open>None\<close> where the operator throws a TypeError (the right operand is not
  an object). It is used with the keys note, duration and startTime only, which no
  array has.
\<close>

fun hasProperty :: "string \<Rightarrow> json \<Rightarrow> bool option" where
  "hasProperty k (JObj kvs) = Some (map_of kvs k \<noteq> None)"
| "hasProperty k (JArr xs) = Some False"
| "hasProperty k j = None"

text \<open>The test of \<open>notes.every\<close> in the first version.\<close>

fun isValidNote :: "json \<Rightarrow> bool" where
  "isValidNote (JObj kvs) =
     ((case map_of kvs ''note'' of Some (JStr x) \<Rightarrow> True | _ \<Rightarrow> False) \<and>
      (case map_of kvs ''duration'' of Some (JNum x) \<Rightarrow> True | _ \<Rightarrow> False) \<and>
      (case map_of kvs ''startTime'' of Some (JNum x) \<Rightarrow> True | _ \<Rightarrow> False))"
| "isValidNote j = False"

text \<open>The test of \<open>notes.every\<close> in the second version: the three keys are present.\<close>

fun hasNoteKeys :: "json \<Rightarrow> bool" where
  "hasNoteKeys (JObj kvs) =
     (map_of kvs ''note'' \<noteq> None \<and> map_of kvs ''duration'' \<noteq> None \<and> map_of kvs ''startTime'' \<noteq> None)"
| "hasNoteKeys j = False"

text \<open>
  \<open>getSongNotes\<close>, first version. The result is the parsed array itself
  (\<open>notes as SongNote[]\<close> is a cast). Every failure inside the inner \<open>try\<close> gives null; a
  failure of the generator is thrown on when it looks like a configuration error.
\<close>

definition getSongNotes :: "Lib \<Rightarrow> GenResponse \<Rightarrow> json list option Promise" where
  "getSongNotes lib resp =
     (case resp of
        GenFailed config \<Rightarrow> if config then Rejected else Resolved None
      | GenText txt \<Rightarrow>
          (let responseText = trim lib txt
           in if responseText = [] then Resolved None
              else
                (case (indexOf CHR ''['' responseText, lastIndexOf CHR '']'' responseText) of
                   (Some startIndex, Some endIndex) \<Rightarrow>
                     if endIndex < startIndex then Resolved None
                     else
                       (case JSON_parse lib (substring responseText startIndex (endIndex + 1)) of
                          Some (JArr notes) \<Rightarrow>
                            if notes = [] then Resolved None
                            else if list_all isValidNote notes then Resolved (Some notes)
                            else Resolved None
                        | _ \<Rightarrow> Resolved None)
                 | _ \<Rightarrow> Resolved None)))"

text \<open>
  \<open>getSongNotes\<close>, second version. The direct parse is tried first; a throw in it
  (the parse, or \<open>in\<close> on a first element that is not an object) is caught and the
  extraction follows. The outer \<open>catch\<close> turns every exception into null.
\<close>

definition directParse :: "Lib \<Rightarrow> string \<Rightarrow> json list option" where
  "directParse lib jsonString =
     (case JSON_parse lib jsonString of
        Some (JArr (n0 # ns)) \<Rightarrow>
          (case hasProperty ''note'' n0 of Some True \<Rightarrow> Some (n0 # ns) | _ \<Rightarrow> None)
      | _ \<Rightarrow> None)"

definition getSongNotes2 :: "Lib \<Rightarrow> GenResponse \<Rightarrow> json list option Promise" where
  "getSongNotes2 lib resp =
     (case resp of
        GenFailed config \<Rightarrow> Resolved None
      | GenText txt \<Rightarrow>
          (let jsonString = trim lib txt
           in case directParse lib jsonString of
                Some notes \<Rightarrow> Resolved (Some notes)
              | None \<Rightarrow>
                  (let jsonString1 =
                         (case matchFence lib jsonString of
                            Some inner \<Rightarrow> if inner \<noteq> [] then inner else jsonString
                          | None \<Rightarrow> jsonString)
                   in case (indexOf CHR ''['' jsonString1, lastIndexOf CHR '']'' jsonString1) of
                        (Some startIndex, Some endIndex) \<Rightarrow>
                          (case JSON_parse lib (substring jsonString1 startIndex (endIndex + 1)) of
                             Some (JArr notes) \<Rightarrow>
                               if notes \<noteq> [] \<and> list_all hasNoteKeys notes then Resolved (Some notes)
                               else Resolved None
                           | _ \<Rightarrow> Resolved None)
                      | _ \<Rightarrow> Resolved None)))"

text \<open>
  The typed view of an element of the returned array. The cast is not checked at run
  time; the first version has checked the three fields before it, and for them the view
  is exact. A field of another JSON type, which only the second version lets through,
  has no value in \<open>SongNote\<close> and reads as the empty name or 0 here. The view keeps the
  length of the array, which is all that the theorems on loading use of it.
\<close>

definition asSongNote :: "json \<Rightarrow> SongNote" where
  "asSongNote j =
     (case j of
        JObj kvs \<Rightarrow>
          \<lparr>noteName = (case map_of kvs ''note'' of Some (JStr x) \<Rightarrow> x | _ \<Rightarrow> []),
           duration = (case map_of kvs ''duration'' of Some (JNum x) \<Rightarrow> x | _ \<Rightarrow> 0),
           startTime = (case map_of kvs ''startTime'' of Some (JNum x) \<Rightarrow> x | _ \<Rightarrow> 0)\<rparr>
      | _ \<Rightarrow> \<lparr>noteName = [], duration = 0, startTime = 0\<rparr>)"

definition asSong :: "json list option Promise \<Rightarrow> SongNote list option Promise" where
  "asSong p =
     (case p of
        Resolved (Some notes) \<Rightarrow> Resolved (Some (map asSongNote notes))
      | Resolved None \<Rightarrow> Resolved None
      | Rejected \<Rightarrow> Rejected)"

text \<open>
  \<open>handleLoad\<close>, up to the \<open>await\<close> and after it. \<open>resetPlayback\<close> reads the \<open>appState\<close>
  of the render, not the LOADING just set. After the \<open>await\<close>, \<open>if (notes)\<close> is true
  for every array, the empty one included.
\<close>

definition handleLoadBegin :: "Platform \<Rightarrow> real \<Rightarrow> App \<Rightarrow> Outcome" where
  "handleLoadBegin pf t s =
     andThen (resetPlayback pf t (appState s) (s\<lparr>appState := LOADING, song := None, errorInfo := None\<rparr>))
       (\<lambda>s1. Returned (s1\<lparr>completionMessage := None\<rparr>))"

definition handleLoadEnd :: "SongNote list option Promise \<Rightarrow> App \<Rightarrow> App" where
  "handleLoadEnd p s =
     (case p of
        Resolved (Some notes) \<Rightarrow> s\<lparr>song := Some notes, appState := LOADED\<rparr>
      | Resolved None \<Rightarrow> s\<lparr>errorInfo := Some GenerationFailed, appState := ERROR\<rparr>
      | Rejected \<Rightarrow> s\<lparr>errorInfo := Some ConfigurationError, appState := ERROR\<rparr>)"

section \<open>Events\<close>

text \<open>
  Everything that can run a piece of the component: the clicks, the keys of the piano,
  the completion of a generation (by the first version of the service when the flag is
  true, by the second otherwise), the browser callbacks and the effects. An exception
  that escapes a handler leaves the state as the handler had made it. The events are
  accepted in every state: that a button is disabled or hidden is a matter of the
  rendered page, not of the handlers.
\<close>

datatype Event =
    ClickLoad real
  | GenerationDone bool GenResponse
  | ClickPlayPause real real
  | ClickStop real
  | ClickLearning real
  | SelectSpeed real
  | KeyDown real string
  | KeyUp real string
  | OscillatorEnded string
  | TimerFires nat
  | AnimationFrame real
  | RefsEffect
  | SpeedEffect real real real
  | HighlightEffect

fun step :: "Platform \<Rightarrow> Lib \<Rightarrow> Event \<Rightarrow> App \<Rightarrow> App" where
  "step pf lib (ClickLoad t) s = stateOf (handleLoadBegin pf t s)"
| "step pf lib (GenerationDone v1 r) s =
     handleLoadEnd (asSong (if v1 then getSongNotes lib r else getSongNotes2 lib r)) s"
| "step pf lib (ClickPlayPause now t) s = stateOf (handlePlayPause pf now t s)"
| "step pf lib (ClickStop t) s = stateOf (resetPlayback pf t (appState s) s)"
| "step pf lib (ClickLearning t) s = stateOf (handleToggleLearning pf t s)"
| "step pf lib (SelectSpeed v) s = setPlaybackSpeed v s"
| "step pf lib (KeyDown t n) s = onNoteDown pf t n s"
| "step pf lib (KeyUp t n) s = stateOf (stopNote pf t n s)"
| "step pf lib (OscillatorEnded n) s = oscillatorEnded n s"
| "step pf lib (TimerFires i) s = fireTimer i s"
| "step pf lib (AnimationFrame now) s = animationLoop now s"
| "step pf lib RefsEffect s = syncRefs s"
| "step pf lib (SpeedEffect now now2 t) s = stateOf (speedChangeEffect pf now now2 t s)"
| "step pf lib HighlightEffect s = learningHighlightEffect s"

text \<open>The state after a sequence of events, the first of the list first.\<close>

definition run :: "Platform \<Rightarrow> Lib \<Rightarrow> Event list \<Rightarrow> App \<Rightarrow> App" where
  "run pf lib es s = fold (step pf lib) es s"

text \<open>
  When no exception can escape \<open>stopAllSounds\<close>: the platform accepts a second stop,
  or no manual node has had its stop requested yet.
\<close>

definition stopSafe :: "Platform \<Rightarrow> App \<Rightarrow> bool" where
  "stopSafe pf s =
     (if stopThrowsWhenStopped pf then list_all (\<lambda>kv. stopAt (snd kv) = None) (manualNodes s)
      else True)"

text \<open>The index of the first note that is not a rest (the length when all are rests).\<close>

definition firstNonRest :: "SongNote list \<Rightarrow> nat" where
  "firstNonRest sg = length (takeWhile (\<lambda>n. noteName n = ''Rest'') sg)"

section \<open>The plan, stated from the song\<close>

text \<open>
  What a plan built from offset \<open>off\<close> at speed \<open>sp\<close> should contain, written from
  the song alone, to compare with what the loop of \<open>scheduleSong\<close> builds: the notes
  that remain, the tone of a note against the audio anchor \<open>t\<close>, one highlight timer per
  remaining note, numbered from \<open>i\<close>, and the end-of-song timer after them.
\<close>

definition remaining :: "real \<Rightarrow> SongNote list \<Rightarrow> SongNote list" where
  "remaining off sg = filter (\<lambda>n. \<not> startTime n < off) sg"

definition toneFor :: "real \<Rightarrow> real \<Rightarrow> real \<Rightarrow> SongNote \<Rightarrow> AudioNodes" where
  "toneFor t off sp n =
     \<lparr>frequency = frequencyOf (noteName n),
      startAt = t + (startTime n - off) / (1000 * sp),
      stopAt = Some (t + (startTime n - off) / (1000 * sp) + duration n / (1000 * sp))\<rparr>"

definition planNodes :: "real \<Rightarrow> real \<Rightarrow> real \<Rightarrow> SongNote list \<Rightarrow> AudioNodes list" where
  "planNodes t off sp sg =
     map (toneFor t off sp) (filter (\<lambda>n. noteName n \<noteq> ''Rest'') (remaining off sg))"

fun highlightTimers :: "nat \<Rightarrow> real \<Rightarrow> real \<Rightarrow> SongNote list \<Rightarrow> Timer list" where
  "highlightTimers i off sp [] = []"
| "highlightTimers i off sp (n # ns) =
     \<lparr>timerId = i, delayMs = (startTime n - off) / (1000 * sp) * 1000,
      action = Highlight (noteName n) (startTime n)\<rparr> # highlightTimers (Suc i) off sp ns"

definition endTimer :: "nat \<Rightarrow> real \<Rightarrow> real \<Rightarrow> SongNote list \<Rightarrow> Timer" where
  "endTimer i off sp sg =
     \<lparr>timerId = i, delayMs = (startTime (last sg) + duration (last sg) - off) / sp + 100,
      action = SongEnd\<rparr>"

definition planTimers :: "nat \<Rightarrow> real \<Rightarrow> real \<Rightarrow> SongNote list \<Rightarrow> Timer list" where
  "planTimers i off sp sg =
     highlightTimers i off sp (remaining off sg) @
     (if sg = [] then [] else [endTimer (i + length (remaining off sg)) off sp sg])"

text \<open>The timers of the old plan are cleared by \<open>stopAllSounds\<close>; these stay.\<close>

definition untracked :: "App \<Rightarrow> Timer list" where
  "untracked s = filter (\<lambda>x. timerId x \<notin> set (scheduledUiCallbacks s)) (pendingTimers s)"

text \<open>
  The pending timers of the plan in force, and what a timer does and when, whatever its id.
\<close>

definition tracked :: "App \<Rightarrow> Timer list" where
  "tracked s = filter (\<lambda>x. timerId x \<in> set (scheduledUiCallbacks s)) (pendingTimers s)"

definition timing :: "Timer \<Rightarrow> real \<times> TimerAction" where
  "timing x = (delayMs x, action x)"

text \<open>Timer ids are handed out in increasing order, so a pending timer has an id below the next one.\<close>

definition timersFresh :: "App \<Rightarrow> bool" where
  "timersFresh s = list_all (\<lambda>x. timerId x < nextTimerId s) (pendingTimers s)"

section \<open>The cursor of learning mode\<close>


text \<open>
  A step that either leaves learning mode or keeps the state, the song and the cursor.
\<close>

definition keepsCursor :: "App \<Rightarrow> App \<Rightarrow> bool" where
  "keepsCursor s s' =
     (if appState s' = LEARNING
      then appState s = LEARNING \<and> song s' = song s \<and> learningNoteIndex s' = learningNoteIndex s
      else True)"

section \<open>Concrete inputs\<close>

definition browser :: Platform where
  "browser = \<lparr>audioSupported = True, stopThrowsWhenStopped = False\<rparr>"

text \<open>A browser whose \<open>oscillator.stop\<close> rejects a second call.\<close>

definition strictBrowser :: Platform where
  "strictBrowser = \<lparr>audioSupported = True, stopThrowsWhenStopped = True\<rparr>"

definition mkNote :: "string \<Rightarrow> real \<Rightarrow> real \<Rightarrow> SongNote" where
  "mkNote n d st = \<lparr>noteName = n, duration = d, startTime = st\<rparr>"

text \<open>The state after a load that delivered the song \<open>sg\<close>, from the initial state.\<close>

definition loadedApp :: "SongNote list \<Rightarrow> App" where
  "loadedApp sg = handleLoadEnd (Resolved (Some sg)) (stateOf (handleLoadBegin browser 0 initialApp))"

text \<open>Library functions for the concrete runs, none of which loads through the service.\<close>

definition noLib :: Lib where
  "noLib = \<lparr>trim = (\<lambda>x. x), JSON_parse = (\<lambda>x. None), matchFence = (\<lambda>x. None)\<rparr>"

definition oneNote :: "SongNote list" where
  "oneNote = [mkNote ''C4'' 500 0]"

definition twoNotes :: "SongNote list" where
  "twoNotes = [mkNote ''C4'' 500 0, mkNote ''D4'' 500 500]"

definition threeNotes :: "SongNote list" where
  "threeNotes = [mkNote ''C4'' 1000 0, mkNote ''D4'' 1000 1000, mkNote ''E4'' 1000 2000]"

definition restThenNote :: "SongNote list" where
  "restThenNote = [mkNote ''Rest'' 500 0, mkNote ''C4'' 500 500]"

definition restsFirst :: "SongNote list" where
  "restsFirst = [mkNote ''Rest'' 500 0, mkNote ''Rest'' 500 500, mkNote ''C4'' 500 1000]"

text \<open>
  A click on Play at time 0 with the effects of the render that follows, all at the
  same reading of the clocks.
\<close>

definition clickPlay :: "Event list" where
  "clickPlay = [ClickPlayPause 0 0, RefsEffect, SpeedEffect 0 0 0, HighlightEffect]"

text \<open>The one-note song, played from 0 and paused 100 ms later.\<close>

definition pausedAt100 :: App where
  "pausedAt100 = run browser noLib (clickPlay @ [ClickPlayPause 100 (1/10), RefsEffect]) (loadedApp oneNote)"

text \<open>The one-note song paused at 100 ms, then the key C4 pressed on the piano.\<close>

definition pausedHoldingC4 :: App where
  "pausedHoldingC4 = run browser noLib [KeyDown (1/5) ''C4''] pausedAt100"

text \<open>
  On the strict browser: the key C4 pressed at audio time 0 and released 10 ms later.
  The node stays in the map until the oscillator has ended, 100 ms after the release.
\<close>

definition releasedC4 :: App where
  "releasedC4 = run strictBrowser noLib [KeyDown 0 ''C4'', KeyUp (1/100) ''C4''] (loadedApp oneNote)"

text \<open>The one-note song playing on the strict browser.\<close>

definition playingStrict :: App where
  "playingStrict = run strictBrowser noLib clickPlay (loadedApp oneNote)"

text \<open>The three-note song playing at speed 1 from time 0.\<close>

definition playingThree :: App where
  "playingThree = run browser noLib clickPlay (loadedApp threeNotes)"

text \<open>
  The speed set to 0.5 after 1000 ms of playing: the new state is rendered, the refs
  are copied and the effect on the speed runs, with the clocks at 1000 ms and 1 s.
\<close>

definition slowedThree :: App where
  "slowedThree = run browser noLib [SelectSpeed (1/2), RefsEffect, SpeedEffect 1000 1000 1] playingThree"

text \<open>The two-note song playing at speed 1 from time 0.\<close>

definition playingTwo :: App where
  "playingTwo = run browser noLib clickPlay (loadedApp twoNotes)"

text \<open>Learning mode on the song that starts with a rest, with the cursor on the note C4.\<close>

definition learningRestThenNote :: App where
  "learningRestThenNote = run browser noLib [ClickLearning 0, HighlightEffect] (loadedApp restThenNote)"

text \<open>The two-note song paused after 250 ms and resumed at the same instant.\<close>

definition resumedTwo :: App where
  "resumedTwo = run browser noLib [ClickPlayPause 250 (1/4), ClickPlayPause 250 (1/4)] playingTwo"

text \<open>A song with two rests between its notes, and learning mode entered on it.\<close>

definition restsInside :: "SongNote list" where
  "restsInside = [mkNote ''C4'' 500 0, mkNote ''Rest'' 500 500, mkNote ''Rest'' 500 1000,
                  mkNote ''D4'' 500 1500]"


text \<open>
  The three-note song just after the click on Play at time 0: the state is rendered and
  the refs are copied; the effect on the speed has not run yet.
\<close>

definition enteredThree :: App where
  "enteredThree = run browser noLib [ClickPlayPause 0 0, RefsEffect] (loadedApp threeNotes)"

text \<open>The two-note song paused after 250 ms.\<close>

definition pausedTwo :: App where
  "pausedTwo = run browser noLib [ClickPlayPause 250 (1/4), RefsEffect] playingTwo"

text \<open>
  The one-note song playing on the strict browser, with the key E4 of the piano pressed
  at 50 ms and held.
\<close>

definition playingHeld :: App where
  "playingHeld = run strictBrowser noLib (clickPlay @ [KeyDown (1/20) ''E4'']) (loadedApp oneNote)"

section \<open>Basic facts\<close>

lemma andThen_simps [simp]:
  "andThen (Returned s) f = f s"
  "andThen (Thrown e s) f = Thrown e s"
  by (simp_all add: andThen_def)

lemma stateOf_simps [simp]:
  "stateOf (Returned s) = s"
  "stateOf (Thrown e s) = s"
  by (simp_all add: stateOf_def)

lemma returns_simps [simp]:
  "returns (Returned s) = True"
  "returns (Thrown e s) = False"
  by (simp_all add: returns_def)

lemma fold_clearTimeout:
  "fold clearTimeout ids s =
     s\<lparr>pendingTimers := filter (\<lambda>t. timerId t \<notin> set ids) (pendingTimers s)\<rparr>"
proof (induction ids arbitrary: s)
  case Nil
  show ?case by simp
next
  case (Cons i ids)
  have flt: "filter (\<lambda>t. timerId t \<notin> set ids) (filter (\<lambda>t. timerId t \<noteq> i) (pendingTimers s))
        = filter (\<lambda>t. timerId t \<notin> set (i # ids)) (pendingTimers s)"
    by (simp add: conj_commute)
  have "fold clearTimeout (i # ids) s = fold clearTimeout ids (clearTimeout i s)"
    by simp
  also have "\<dots> = (clearTimeout i s)\<lparr>pendingTimers :=
                      filter (\<lambda>t. timerId t \<notin> set ids) (pendingTimers (clearTimeout i s))\<rparr>"
    by (rule Cons.IH)
  also have "\<dots> = s\<lparr>pendingTimers := filter (\<lambda>t. timerId t \<notin> set (i # ids)) (pendingTimers s)\<rparr>"
    unfolding clearTimeout_def using flt by simp
  finally show ?case .
qed

lemma stopManualNodes_no_throw:
  "list_all (\<lambda>kv. oscillatorStop pf (t + 0.05) (snd kv) \<noteq> None) m
     \<Longrightarrow> snd (stopManualNodes pf t m) = False"
  by (induction m) (auto split: option.splits prod.splits)

lemma stopSafe_no_throw:
  assumes "stopSafe pf s"
  shows "snd (stopManualNodes pf t (manualNodes s)) = False"
proof -
  have "list_all (\<lambda>kv. oscillatorStop pf (t + 0.05) (snd kv) \<noteq> None) (manualNodes s)"
    using assms by (auto simp: stopSafe_def oscillatorStop_def list_all_iff split: if_splits)
  then show ?thesis by (rule stopManualNodes_no_throw)
qed

lemma stopAllSounds_returns:
  assumes "stopSafe pf s"
  shows "stopAllSounds pf t s =
           Returned (s\<lparr>scheduledNodes := [], scheduledUiCallbacks := [],
                       pendingTimers := filter (\<lambda>x. timerId x \<notin> set (scheduledUiCallbacks s)) (pendingTimers s),
                       manualNodes := [], activeNotes := {}\<rparr>)"
proof -
  obtain m b where mb: "stopManualNodes pf t (manualNodes s) = (m, b)"
    by (cases "stopManualNodes pf t (manualNodes s)")
  with stopSafe_no_throw [OF assms, of t] have b: "b = False" by simp
  show ?thesis
    by (simp add: stopAllSounds_def Let_def fold_clearTimeout mb b)
qed

section \<open>The song never changes outside loading\<close>

lemma getSongNotes_not_empty: "getSongNotes lib r \<noteq> Resolved (Some [])"
  by (auto simp: getSongNotes_def Let_def split: GenResponse.splits option.splits json.splits prod.splits)

lemma directParse_not_empty: "directParse lib x \<noteq> Some []"
  by (auto simp: directParse_def split: option.splits json.splits list.splits bool.splits)

lemma getSongNotes2_not_empty: "getSongNotes2 lib r \<noteq> Resolved (Some [])"
  using directParse_not_empty [of lib]
  by (auto simp: getSongNotes2_def Let_def split: GenResponse.splits option.splits json.splits prod.splits)

lemma song_andThen:
  assumes "song (stateOf r) = x" and "\<And>s'. song s' = x \<Longrightarrow> song (stateOf (f s')) = x"
  shows "song (stateOf (andThen r f)) = x"
  using assms by (cases r) auto

lemma song_setTimeout [simp]: "song (setTimeout a d s) = song s"
  by (simp add: setTimeout_def)

lemma song_stopAllSounds [simp]: "song (stateOf (stopAllSounds pf t s)) = song s"
  by (simp add: stopAllSounds_def Let_def fold_clearTimeout split: prod.splits bool.splits)

lemma song_scheduleNotes:
  "scheduleNotes t off sp ns s nodes ids = (s', nodes', ids') \<Longrightarrow> song s' = song s"
  by (induction ns arbitrary: s nodes ids) (auto simp: Let_def split: if_splits)

lemma song_initializeAudio [simp]: "song (initializeAudio pf s) = song s"
  by (simp add: initializeAudio_def)

lemma song_scheduleSong [simp]: "song (stateOf (scheduleSong pf t off s)) = song s"
proof (cases "song s")
  case None
  then show ?thesis by (simp add: scheduleSong_def)
next
  case (Some sg)
  show ?thesis
  proof (cases "initializeAudioOk pf s")
    case False
    then show ?thesis using Some by (simp add: scheduleSong_def)
  next
    case True
    show ?thesis using Some True
      apply (simp add: scheduleSong_def)
      apply (rule song_andThen)
       apply simp
      apply (auto simp: Let_def split: prod.splits dest: song_scheduleNotes)
      done
  qed
qed

lemma song_resetPlayback [simp]: "song (stateOf (resetPlayback pf t r s)) = song s"
  unfolding resetPlayback_def
  by (rule song_andThen) (simp_all add: Let_def)

lemma song_handlePlayPause [simp]: "song (stateOf (handlePlayPause pf now t s)) = song s"
  unfolding handlePlayPause_def Let_def
  by (auto intro!: song_andThen)

lemma song_speedChangeEffect [simp]: "song (stateOf (speedChangeEffect pf now now2 t s)) = song s"
  by (simp add: speedChangeEffect_def Let_def)

lemma song_handleToggleLearning [simp]: "song (stateOf (handleToggleLearning pf t s)) = song s"
  unfolding handleToggleLearning_def
  by (auto intro!: song_andThen split: option.splits)

lemma song_playNote [simp]: "song (playNote pf t n s) = song s"
  by (simp add: playNote_def Let_def)

lemma song_onNoteDown [simp]: "song (onNoteDown pf t n s) = song s"
  by (simp add: onNoteDown_def Let_def split: option.splits)

lemma song_stopNote [simp]: "song (stateOf (stopNote pf t n s)) = song s"
  by (simp add: stopNote_def split: option.splits)

lemma song_runAction [simp]: "song (runAction a s) = song s"
  by (cases a) simp_all

lemma song_fireTimer [simp]: "song (fireTimer i s) = song s"
  by (simp add: fireTimer_def clearTimeout_def split: option.splits)

lemma song_learningHighlightEffect [simp]: "song (learningHighlightEffect s) = song s"
  by (simp add: learningHighlightEffect_def split: option.splits)

lemma song_handleLoadBegin [simp]: "song (stateOf (handleLoadBegin pf t s)) = None"
  unfolding handleLoadBegin_def
  by (rule song_andThen) simp_all

lemma asSong_not_empty: "p \<noteq> Resolved (Some []) \<Longrightarrow> asSong p \<noteq> Resolved (Some [])"
  by (auto simp: asSong_def split: Promise.splits option.splits)

lemma song_handleLoadEnd:
  "song (handleLoadEnd p s) = (case p of Resolved (Some notes) \<Rightarrow> Some notes | _ \<Rightarrow> song s)"
  by (simp add: handleLoadEnd_def split: Promise.splits option.splits)

lemma step_song_not_empty:
  assumes "song s \<noteq> Some []"
  shows "song (step pf lib e s) \<noteq> Some []"
proof (cases e)
  case (GenerationDone v1 r)
  have "asSong (if v1 then getSongNotes lib r else getSongNotes2 lib r) \<noteq> Resolved (Some [])"
    by (rule asSong_not_empty) (simp add: getSongNotes_not_empty getSongNotes2_not_empty)
  then show ?thesis using assms GenerationDone
    by (auto simp: song_handleLoadEnd split: Promise.splits option.splits)
qed (use assms in \<open>simp_all add: setPlaybackSpeed_def oscillatorEnded_def animationLoop_def syncRefs_def Let_def\<close>)

lemma run_song_not_empty:
  "song s \<noteq> Some [] \<Longrightarrow> song (run pf lib es s) \<noteq> Some []"
  unfolding run_def
  by (induction es arbitrary: s) (simp_all add: step_song_not_empty)

section \<open>The loop of scheduleSong builds the plan\<close>

lemma length_highlightTimers [simp]: "length (highlightTimers i off sp ns) = length ns"
  by (induction ns arbitrary: i) simp_all

lemma scheduleNotes_eq:
  "scheduleNotes t off sp ns s nodes ids =
     (s\<lparr>pendingTimers := pendingTimers s @ highlightTimers (nextTimerId s) off sp (remaining off ns),
        nextTimerId := nextTimerId s + length (remaining off ns)\<rparr>,
      nodes @ planNodes t off sp ns,
      ids @ map timerId (highlightTimers (nextTimerId s) off sp (remaining off ns)))"
proof (induction ns arbitrary: s nodes ids)
  case Nil
  show ?case by (simp add: remaining_def planNodes_def)
next
  case (Cons n ns)
  show ?case
  proof (cases "startTime n < off")
    case True
    then show ?thesis using Cons.IH [of s nodes ids]
      by (simp add: remaining_def planNodes_def)
  next
    case False
    then show ?thesis
      by (simp add: Cons.IH Let_def setTimeout_def remaining_def planNodes_def toneFor_def)
  qed
qed

lemma scheduleSong_plan:
  assumes "song s = Some sg" and "initializeAudioOk pf s" and "stopSafe pf s"
  shows "scheduleSong pf t off s =
     Returned (s\<lparr>audioContext := True,
       scheduledNodes := planNodes t off (playbackSpeed s) sg,
       scheduledUiCallbacks := map timerId (planTimers (nextTimerId s) off (playbackSpeed s) sg),
       pendingTimers := untracked s @ planTimers (nextTimerId s) off (playbackSpeed s) sg,
       nextTimerId := nextTimerId s + length (planTimers (nextTimerId s) off (playbackSpeed s) sg),
       manualNodes := [], activeNotes := {},
       appState := (if sg = [] then LOADED else appState s)\<rparr>)"
proof -
  have s0: "initializeAudio pf s = s\<lparr>audioContext := True\<rparr>"
    using assms(2) by (cases "audioContext s") (simp_all add: initializeAudio_def initializeAudioOk_def)
  have safe: "stopSafe pf (s\<lparr>audioContext := True\<rparr>)"
    using assms(3) by (simp add: stopSafe_def)
  show ?thesis
    using assms(1,2)
    by (simp add: scheduleSong_def stopAllSounds_returns [OF safe] scheduleNotes_eq s0
        Let_def planTimers_def endTimer_def setTimeout_def untracked_def)
qed

section \<open>Timers and the search for the next note\<close>

lemma remaining_all_before:
  "list_all (\<lambda>n. startTime n < off) sg \<Longrightarrow> remaining off sg = []"
  by (induction sg) (simp_all add: remaining_def)

lemma find_append_list:
  "find P (xs @ ys) = (case find P xs of None \<Rightarrow> find P ys | Some x \<Rightarrow> Some x)"
  by (induction xs) simp_all

lemma find_untracked_fresh:
  assumes "timersFresh s"
  shows "find (\<lambda>x. timerId x = nextTimerId s) (untracked s @ [tm]) =
           (if timerId tm = nextTimerId s then Some tm else None)"
proof -
  have "\<forall>x \<in> set (untracked s). timerId x \<noteq> nextTimerId s"
    using assms by (auto simp: timersFresh_def untracked_def list_all_iff)
  then have "find (\<lambda>x. timerId x = nextTimerId s) (untracked s) = None"
    by (simp add: find_None_iff)
  then show ?thesis by (simp add: find_append_list)
qed

lemma untracked_fresh:
  assumes "timersFresh s"
  shows "filter (\<lambda>x. timerId x \<noteq> nextTimerId s) (untracked s) = untracked s"
  using assms unfolding timersFresh_def untracked_def list_all_iff
  by (auto intro!: filter_cong)

lemma skipRests_takeWhile:
  "i \<le> length sg \<Longrightarrow> skipRests sg i = i + length (takeWhile (\<lambda>n. noteName n = ''Rest'') (drop i sg))"
proof (induction sg i rule: skipRests.induct)
  case (1 sg i)
  show ?case
  proof (cases "i < length sg \<and> noteName (sg ! i) = ''Rest''")
    case True
    then have d: "drop i sg = sg ! i # drop (Suc i) sg" by (simp add: Cons_nth_drop_Suc)
    from True "1.IH" have "skipRests sg (Suc i) = Suc i + length (takeWhile (\<lambda>n. noteName n = ''Rest'') (drop (Suc i) sg))"
      by simp
    then show ?thesis using True by (subst skipRests.simps) (simp add: d)
  next
    case False
    show ?thesis
    proof (cases "i < length sg")
      case True
      then have d: "drop i sg = sg ! i # drop (Suc i) sg" by (simp add: Cons_nth_drop_Suc)
      from True False show ?thesis by (subst skipRests.simps) (simp add: d)
    next
      case False
      with "1.prems" show ?thesis by (subst skipRests.simps) simp
    qed
  qed
qed

lemma skipRests_first: "skipRests sg 0 = firstNonRest sg"
  using skipRests_takeWhile [of 0 sg] by (simp add: firstNonRest_def)

lemma skipRests_not_rest:
  "skipRests sg i < length sg \<Longrightarrow> noteName (sg ! skipRests sg i) \<noteq> ''Rest''"
proof (induction sg i rule: skipRests.induct)
  case (1 sg i)
  show ?case
  proof (cases "i < length sg \<and> noteName (sg ! i) = ''Rest''")
    case True
    then have eq: "skipRests sg i = skipRests sg (Suc i)" by (subst skipRests.simps) simp
    with "1.IH" True "1.prems" show ?thesis by simp
  next
    case False
    then have eq: "skipRests sg i = i" by (subst skipRests.simps) auto
    with False "1.prems" show ?thesis by simp
  qed
qed

lemma firstNonRest_less:
  "list_ex (\<lambda>n. noteName n \<noteq> ''Rest'') sg \<Longrightarrow> firstNonRest sg < length sg"
proof -
  assume "list_ex (\<lambda>n. noteName n \<noteq> ''Rest'') sg"
  then have "takeWhile (\<lambda>n. noteName n = ''Rest'') sg \<noteq> sg"
    by (auto simp: list_ex_iff takeWhile_eq_all_conv)
  then have "length (takeWhile (\<lambda>n. noteName n = ''Rest'') sg) \<noteq> length sg"
    by (induction sg) (auto split: if_splits)
  moreover have "length (takeWhile (\<lambda>n. noteName n = ''Rest'') sg) \<le> length sg"
    by (rule length_takeWhile_le)
  ultimately show ?thesis by (simp add: firstNonRest_def)
qed

lemma firstNonRest_before:
  "i < firstNonRest sg \<Longrightarrow> noteName (sg ! i) = ''Rest''"
proof -
  assume a: "i < firstNonRest sg"
  let ?tw = "takeWhile (\<lambda>n. noteName n = ''Rest'') sg"
  from a have "?tw ! i = sg ! i" by (simp add: firstNonRest_def takeWhile_nth)
  moreover from a have "?tw ! i \<in> set ?tw" by (simp add: firstNonRest_def)
  ultimately show ?thesis by (auto dest: set_takeWhileD)
qed

section \<open>Evaluating the concrete inputs\<close>

lemmas concrete_defs = loadedApp_def handleLoadBegin_def resetPlayback_def stopAllSounds_def initialApp_def
    handleLoadEnd_def browser_def strictBrowser_def mkNote_def scheduleSong_def initializeAudioOk_def initializeAudio_def Let_def setTimeout_def noHighlight_def
    clearTimeout_def fireTimer_def frequencyOf_def noteFrequencies_def handlePlayPause_def
    playNote_def stopNote_def oscillatorStop_def stopScheduledNode_def onNoteDown_def handleToggleLearning_def
    learningHighlightEffect_def syncRefs_def animationLoop_def setPlaybackSpeed_def speedChangeEffect_def
    skipRests.simps oscillatorEnded_def run_def clickPlay_def noLib_def
    oneNote_def twoNotes_def threeNotes_def restThenNote_def restsFirst_def restsInside_def

lemma pausedAt100_eq:
  "pausedAt100 = (loadedApp oneNote)\<lparr>appState := PAUSED, audioContext := True,
       playbackProgressRef := 100, appStateRef := PAUSED, nextTimerId := 5\<rparr>"
  by (simp add: pausedAt100_def concrete_defs)

lemma find_fresh_none:
  "timersFresh s \<Longrightarrow> nextTimerId s \<le> k \<Longrightarrow> find (\<lambda>x. timerId x = k) (pendingTimers s) = None"
  by (auto simp: timersFresh_def list_all_iff find_None_iff)

lemma filter_fresh_id:
  "timersFresh s \<Longrightarrow> nextTimerId s \<le> k \<Longrightarrow> filter (\<lambda>x. timerId x \<noteq> k) (pendingTimers s) = pendingTimers s"
  by (auto simp: timersFresh_def list_all_iff filter_id_conv)

lemma learningRestThenNote_eq:
  "learningRestThenNote = (loadedApp restThenNote)\<lparr>appState := LEARNING, audioContext := True,
       learningNoteIndex := 1,
       highlightedNoteInfo := \<lparr>hlNote = Some ''C4'', hlStartTime = Some 500\<rparr>\<rparr>"
  by (simp add: learningRestThenNote_def concrete_defs)

lemma pausedHoldingC4_eq:
  "pausedHoldingC4 = pausedAt100\<lparr>activeNotes := {''C4''},
       manualNodes := [(''C4'', \<lparr>frequency = 261.63, startAt = 1/5, stopAt = None\<rparr>)]\<rparr>"
  by (simp add: pausedHoldingC4_def pausedAt100_eq concrete_defs)

lemma playingStrict_eq:
  "playingStrict = (loadedApp oneNote)\<lparr>appState := PLAYING, audioContext := True, appStateRef := PLAYING,
      scheduledNodes := [\<lparr>frequency = 261.63, startAt = 0, stopAt = Some (1/2)\<rparr>],
      scheduledUiCallbacks := [3, 4],
      pendingTimers := [\<lparr>timerId = 3, delayMs = 0, action = Highlight ''C4'' 0\<rparr>,
                        \<lparr>timerId = 4, delayMs = 600, action = SongEnd\<rparr>],
      nextTimerId := 5\<rparr>"
  by (simp add: playingStrict_def concrete_defs)

lemma releasedC4_eq:
  "releasedC4 = (loadedApp oneNote)\<lparr>audioContext := True,
       manualNodes := [(''C4'', \<lparr>frequency = 261.63, startAt = 0, stopAt = Some (11/100)\<rparr>)]\<rparr>"
  by (simp add: releasedC4_def concrete_defs)

lemma playingThree_eq:
  "playingThree = (loadedApp threeNotes)\<lparr>appState := PLAYING, audioContext := True, appStateRef := PLAYING,
      scheduledNodes := [\<lparr>frequency = 261.63, startAt = 0, stopAt = Some 1\<rparr>,
                         \<lparr>frequency = 293.66, startAt = 1, stopAt = Some 2\<rparr>,
                         \<lparr>frequency = 329.63, startAt = 2, stopAt = Some 3\<rparr>],
      scheduledUiCallbacks := [5, 6, 7, 8],
      pendingTimers := [\<lparr>timerId = 5, delayMs = 0, action = Highlight ''C4'' 0\<rparr>,
                        \<lparr>timerId = 6, delayMs = 1000, action = Highlight ''D4'' 1000\<rparr>,
                        \<lparr>timerId = 7, delayMs = 2000, action = Highlight ''E4'' 2000\<rparr>,
                        \<lparr>timerId = 8, delayMs = 3100, action = SongEnd\<rparr>],
      nextTimerId := 9\<rparr>"
  by (simp add: playingThree_def concrete_defs)

lemma slowedThree_eq:
  "slowedThree = playingThree\<lparr>playbackSpeed := 1/2, playbackSpeedRef := 1/2,
      playbackStartTime := 1000, playbackProgressRef := 500,
      scheduledNodes := [\<lparr>frequency = 293.66, startAt = 2, stopAt = Some 4\<rparr>,
                         \<lparr>frequency = 329.63, startAt = 4, stopAt = Some 6\<rparr>],
      scheduledUiCallbacks := [9, 10, 11],
      pendingTimers := [\<lparr>timerId = 9, delayMs = 1000, action = Highlight ''D4'' 1000\<rparr>,
                        \<lparr>timerId = 10, delayMs = 3000, action = Highlight ''E4'' 2000\<rparr>,
                        \<lparr>timerId = 11, delayMs = 5100, action = SongEnd\<rparr>],
      nextTimerId := 12\<rparr>"
  by (simp add: slowedThree_def playingThree_eq concrete_defs)

section \<open>Teardown and the speed effect\<close>

lemma teardown_twice:
  assumes "stopSafe pf s"
  shows "stopAllSounds pf t' (stateOf (stopAllSounds pf t s)) = stopAllSounds pf t s"
proof -
  let ?s1 = "s\<lparr>scheduledNodes := [], scheduledUiCallbacks := [],
      pendingTimers := filter (\<lambda>x. timerId x \<notin> set (scheduledUiCallbacks s)) (pendingTimers s),
      manualNodes := [], activeNotes := {}\<rparr>"
  have 1: "stopAllSounds pf t s = Returned ?s1" by (rule stopAllSounds_returns [OF assms])
  have "stopSafe pf ?s1" by (simp add: stopSafe_def)
  from stopAllSounds_returns [OF this, of t'] show ?thesis by (simp add: 1)
qed

lemma teardown_of_scheduled_nodes_returns:
  "manualNodes s = [] \<Longrightarrow> returns (stopAllSounds pf t s)"
  by (simp add: stopAllSounds_returns stopSafe_def)

lemma speed_effect_capture:
  assumes "appState s = PLAYING" and "song s = Some sg" and "sg \<noteq> []"
    and "initializeAudioOk pf s" and "stopSafe pf s"
  shows "playbackProgress (animationLoop now2 (syncRefs (stateOf (speedChangeEffect pf now now2 t s))))
           = playbackProgressRef s + (now - playbackStartTime s) * playbackSpeed s"
proof -
  let ?s1 = "s\<lparr>playbackStartTime := now2,
      playbackProgressRef := playbackProgressRef s + (now - playbackStartTime s) * playbackSpeed s\<rparr>"
  have a: "song ?s1 = Some sg" "initializeAudioOk pf ?s1" "stopSafe pf ?s1"
    using assms by (simp_all add: initializeAudioOk_def stopSafe_def)
  show ?thesis
    using assms(1,3)
    by (simp add: speedChangeEffect_def Let_def scheduleSong_plan [OF a] animationLoop_def syncRefs_def)
qed

lemma playingTwo_eq:
  "playingTwo = (loadedApp twoNotes)\<lparr>appState := PLAYING, audioContext := True, appStateRef := PLAYING,
      scheduledNodes := [\<lparr>frequency = 261.63, startAt = 0, stopAt = Some (1/2)\<rparr>,
                         \<lparr>frequency = 293.66, startAt = 1/2, stopAt = Some 1\<rparr>],
      scheduledUiCallbacks := [4, 5, 6],
      pendingTimers := [\<lparr>timerId = 4, delayMs = 0, action = Highlight ''C4'' 0\<rparr>,
                        \<lparr>timerId = 5, delayMs = 500, action = Highlight ''D4'' 500\<rparr>,
                        \<lparr>timerId = 6, delayMs = 1100, action = SongEnd\<rparr>],
      nextTimerId := 7\<rparr>"
  by (simp add: playingTwo_def concrete_defs)

lemma resumedTwo_eq:
  "resumedTwo = playingTwo\<lparr>playbackStartTime := 250, playbackProgressRef := 250,
      scheduledNodes := [\<lparr>frequency = 293.66, startAt = 1/2, stopAt = Some 1\<rparr>],
      scheduledUiCallbacks := [7, 8],
      pendingTimers := [\<lparr>timerId = 7, delayMs = 250, action = Highlight ''D4'' 500\<rparr>,
                        \<lparr>timerId = 8, delayMs = 850, action = SongEnd\<rparr>],
      nextTimerId := 9\<rparr>"
  by (simp add: resumedTwo_def playingTwo_eq concrete_defs)

section \<open>The cursor of learning mode is never put on a rest\<close>

lemma keepsCursor_refl [simp]: "keepsCursor s s"
  by (simp add: keepsCursor_def)


lemma keepsCursor_andThen:
  assumes "keepsCursor s (stateOf r)"
    and "\<And>s'. r = Returned s' \<Longrightarrow> keepsCursor s (stateOf (f s'))"
  shows "keepsCursor s (stateOf (andThen r f))"
  using assms by (cases r) auto

lemma stopAllSounds_frame:
  "appState (stateOf (stopAllSounds pf t s)) = appState s
   \<and> song (stateOf (stopAllSounds pf t s)) = song s
   \<and> learningNoteIndex (stateOf (stopAllSounds pf t s)) = learningNoteIndex s"
  by (simp add: stopAllSounds_def Let_def fold_clearTimeout split: prod.splits bool.splits)

lemma keepsCursor_stopAllSounds [simp]: "keepsCursor s (stateOf (stopAllSounds pf t s))"
  by (simp add: keepsCursor_def stopAllSounds_frame)

lemma scheduleNotes_frame:
  "scheduleNotes t off sp ns s nodes ids = (s', nodes', ids') \<Longrightarrow>
     appState s' = appState s \<and> song s' = song s \<and> learningNoteIndex s' = learningNoteIndex s"
  by (simp add: scheduleNotes_eq) auto

lemma initializeAudio_frame [simp]:
  "appState (initializeAudio pf s) = appState s"
  "learningNoteIndex (initializeAudio pf s) = learningNoteIndex s"
  by (simp_all add: initializeAudio_def)

lemma scheduleSong_keeps:
  "appState (stateOf (scheduleSong pf t off s)) \<noteq> LEARNING
   \<or> (appState (stateOf (scheduleSong pf t off s)) = appState s
      \<and> song (stateOf (scheduleSong pf t off s)) = song s
      \<and> learningNoteIndex (stateOf (scheduleSong pf t off s)) = learningNoteIndex s)"
proof (cases "song s")
  case None
  then show ?thesis by (simp add: scheduleSong_def)
next
  case (Some sg)
  show ?thesis
  proof (cases "initializeAudioOk pf s")
    case False
    then show ?thesis using Some by (simp add: scheduleSong_def)
  next
    case True
    show ?thesis
    proof (cases "stopAllSounds pf t (initializeAudio pf s)")
      case (Returned s1)
      with stopAllSounds_frame [of pf t "initializeAudio pf s"]
      have f: "appState s1 = appState s" "song s1 = song s" "learningNoteIndex s1 = learningNoteIndex s"
        by simp_all
      show ?thesis using Some True Returned f
        by (simp add: scheduleSong_def scheduleNotes_eq Let_def setTimeout_def)
    next
      case (Thrown e s1)
      with stopAllSounds_frame [of pf t "initializeAudio pf s"]
      have f: "appState s1 = appState s" "song s1 = song s" "learningNoteIndex s1 = learningNoteIndex s"
        by simp_all
      show ?thesis using Some True Thrown f by (simp add: scheduleSong_def)
    qed
  qed
qed

lemma keepsCursor_scheduleSong: "keepsCursor s (stateOf (scheduleSong pf t off s))"
  using scheduleSong_keeps [of pf t off s] by (auto simp: keepsCursor_def)






lemma keepsCursor_playNote: "keepsCursor s (playNote pf t n s)"
  by (simp add: playNote_def Let_def keepsCursor_def initializeAudio_def)








section \<open>Pending timers have ids below the next id\<close>

lemma timersFresh_subset:
  "timersFresh s \<Longrightarrow> set (pendingTimers s') \<subseteq> set (pendingTimers s)
     \<Longrightarrow> nextTimerId s \<le> nextTimerId s' \<Longrightarrow> timersFresh s'"
  by (fastforce simp: timersFresh_def list_all_iff)

lemma timersFresh_setTimeout: "timersFresh s \<Longrightarrow> timersFresh (setTimeout a d s)"
  by (fastforce simp: timersFresh_def list_all_iff setTimeout_def)

lemma stopAllSounds_timers:
  "set (pendingTimers (stateOf (stopAllSounds pf t s))) \<subseteq> set (pendingTimers s)
   \<and> nextTimerId (stateOf (stopAllSounds pf t s)) = nextTimerId s"
  by (auto simp: stopAllSounds_def Let_def fold_clearTimeout split: prod.splits bool.splits)

lemma timersFresh_stopAllSounds: "timersFresh s \<Longrightarrow> timersFresh (stateOf (stopAllSounds pf t s))"
  using stopAllSounds_timers [of pf t s] by (auto intro: timersFresh_subset)

lemma highlightTimers_ids:
  "x \<in> set (highlightTimers i off sp ns) \<Longrightarrow> timerId x < i + length ns"
  by (induction ns arbitrary: i) fastforce+

lemma timersFresh_scheduleNotes:
  assumes "timersFresh s" and "scheduleNotes t off sp ns s nodes ids = (s', nodes', ids')"
  shows "timersFresh s'"
proof -
  from assms(2) have s': "s' = s\<lparr>pendingTimers := pendingTimers s @ highlightTimers (nextTimerId s) off sp (remaining off ns),
        nextTimerId := nextTimerId s + length (remaining off ns)\<rparr>"
    by (simp add: scheduleNotes_eq)
  show ?thesis using assms(1) highlightTimers_ids [of _ "nextTimerId s" off sp "remaining off ns"]
    by (fastforce simp: s' timersFresh_def list_all_iff)
qed

lemma timersFresh_initializeAudio [simp]: "timersFresh (initializeAudio pf s) = timersFresh s"
  by (simp add: initializeAudio_def timersFresh_def)

lemma timersFresh_update [simp]:
  "timersFresh (s\<lparr>appState := a\<rparr>) = timersFresh s"
  "timersFresh (s\<lparr>scheduledNodes := b\<rparr>) = timersFresh s"
  "timersFresh (s\<lparr>scheduledUiCallbacks := c\<rparr>) = timersFresh s"
  "timersFresh (s\<lparr>playbackStartTime := d\<rparr>) = timersFresh s"
  "timersFresh (s\<lparr>playbackProgressRef := e\<rparr>) = timersFresh s"
  "timersFresh (s\<lparr>playbackProgress := f\<rparr>) = timersFresh s"
  "timersFresh (s\<lparr>highlightedNoteInfo := g\<rparr>) = timersFresh s"
  "timersFresh (s\<lparr>completionMessage := h\<rparr>) = timersFresh s"
  "timersFresh (s\<lparr>learningNoteIndex := i\<rparr>) = timersFresh s"
  "timersFresh (s\<lparr>song := j\<rparr>) = timersFresh s"
  "timersFresh (s\<lparr>errorInfo := k\<rparr>) = timersFresh s"
  "timersFresh (s\<lparr>correctPressNote := l\<rparr>) = timersFresh s"
  "timersFresh (s\<lparr>incorrectPressNote := m\<rparr>) = timersFresh s"
  "timersFresh (s\<lparr>manualNodes := n\<rparr>) = timersFresh s"
  "timersFresh (s\<lparr>activeNotes := p\<rparr>) = timersFresh s"
  "timersFresh (s\<lparr>playbackSpeed := q\<rparr>) = timersFresh s"
  "timersFresh (s\<lparr>appStateRef := r\<rparr>) = timersFresh s"
  "timersFresh (s\<lparr>playbackSpeedRef := u\<rparr>) = timersFresh s"
  "timersFresh (s\<lparr>audioContext := v\<rparr>) = timersFresh s"
  by (simp_all add: timersFresh_def)

lemma timersFresh_andThen:
  assumes "timersFresh (stateOf r)" and "\<And>s'. timersFresh s' \<Longrightarrow> timersFresh (stateOf (f s'))"
  shows "timersFresh (stateOf (andThen r f))"
  using assms by (cases r) auto

lemma timersFresh_scheduleSong:
  assumes "timersFresh s"
  shows "timersFresh (stateOf (scheduleSong pf t off s))"
proof (cases "song s")
  case None
  then show ?thesis using assms by (simp add: scheduleSong_def)
next
  case (Some sg)
  show ?thesis
  proof (cases "initializeAudioOk pf s")
    case False
    then show ?thesis using Some assms by (simp add: scheduleSong_def)
  next
    case True
    have 0: "timersFresh (stateOf (stopAllSounds pf t (initializeAudio pf s)))"
      using assms by (simp add: timersFresh_stopAllSounds)
    show ?thesis
      using Some True
      apply (simp add: scheduleSong_def)
      apply (rule timersFresh_andThen [OF 0])
      subgoal for s1
        using timersFresh_scheduleNotes [of s1 t off "playbackSpeed s" sg "[]" "[]"]
        by (auto simp: Let_def timersFresh_setTimeout split: prod.splits)
      done
  qed
qed

lemma timersFresh_resetPlayback:
  "timersFresh s \<Longrightarrow> timersFresh (stateOf (resetPlayback pf t r s))"
  unfolding resetPlayback_def
  by (rule timersFresh_andThen) (simp_all add: timersFresh_stopAllSounds Let_def)

lemma timersFresh_handlePlayPause:
  assumes "timersFresh s"
  shows "timersFresh (stateOf (handlePlayPause pf now t s))"
proof (cases "appState s = PLAYING")
  case True
  then show ?thesis using assms
    by (auto simp: handlePlayPause_def Let_def intro!: timersFresh_andThen timersFresh_stopAllSounds)
next
  case False
  then show ?thesis using assms
    by (auto simp: handlePlayPause_def Let_def intro!: timersFresh_andThen timersFresh_scheduleSong)
qed

lemma timersFresh_speedChangeEffect:
  "timersFresh s \<Longrightarrow> timersFresh (stateOf (speedChangeEffect pf now now2 t s))"
  by (simp add: speedChangeEffect_def Let_def timersFresh_scheduleSong)

lemma timersFresh_handleLoadBegin:
  "timersFresh s \<Longrightarrow> timersFresh (stateOf (handleLoadBegin pf t s))"
  unfolding handleLoadBegin_def
  by (rule timersFresh_andThen) (simp_all add: timersFresh_resetPlayback)

lemma timersFresh_handleLoadEnd: "timersFresh s \<Longrightarrow> timersFresh (handleLoadEnd p s)"
  by (simp add: handleLoadEnd_def split: Promise.splits option.splits)

lemma timersFresh_playNote: "timersFresh s \<Longrightarrow> timersFresh (playNote pf t n s)"
  by (simp add: playNote_def Let_def)

lemma timersFresh_stopNote: "timersFresh s \<Longrightarrow> timersFresh (stateOf (stopNote pf t n s))"
  by (simp add: stopNote_def split: option.splits)

lemma timersFresh_onNoteDown: "timersFresh s \<Longrightarrow> timersFresh (onNoteDown pf t n s)"
  by (simp add: onNoteDown_def Let_def timersFresh_playNote timersFresh_setTimeout split: option.splits)

lemma timersFresh_handleToggleLearning:
  "timersFresh s \<Longrightarrow> timersFresh (stateOf (handleToggleLearning pf t s))"
  by (auto simp: handleToggleLearning_def split: option.splits
      intro!: timersFresh_andThen timersFresh_resetPlayback)

lemma timersFresh_runAction: "timersFresh s \<Longrightarrow> timersFresh (runAction a s)"
  by (cases a) simp_all

lemma timersFresh_fireTimer: "timersFresh s \<Longrightarrow> timersFresh (fireTimer i s)"
  by (auto simp: fireTimer_def clearTimeout_def split: option.splits
      intro!: timersFresh_runAction intro: timersFresh_subset)

lemma step_timersFresh: "timersFresh s \<Longrightarrow> timersFresh (step pf lib e s)"
  by (cases e)
    (simp_all add: timersFresh_handleLoadBegin timersFresh_handleLoadEnd timersFresh_handlePlayPause
      timersFresh_resetPlayback timersFresh_handleToggleLearning timersFresh_onNoteDown
      timersFresh_stopNote timersFresh_fireTimer timersFresh_speedChangeEffect setPlaybackSpeed_def
      oscillatorEnded_def animationLoop_def syncRefs_def learningHighlightEffect_def Let_def
      split: option.splits)

lemma run_timersFresh: "timersFresh s \<Longrightarrow> timersFresh (run pf lib es s)"
  unfolding run_def
  by (induction es arbitrary: s) (simp_all add: step_timersFresh)

lemma reachable_timersFresh: "timersFresh (run pf lib es initialApp)"
  by (rule run_timersFresh) (simp add: timersFresh_def initialApp_def)

section \<open>Further facts for the claims\<close>

lemma skipRests_ge: "i \<le> skipRests sg i"
proof (induction sg i rule: skipRests.induct)
  case (1 sg i)
  show ?case
  proof (cases "i < length sg \<and> noteName (sg ! i) = ''Rest''")
    case True
    then have "skipRests sg i = skipRests sg (Suc i)" by (subst skipRests.simps) simp
    with "1.IH" True show ?thesis by simp
  next
    case False
    then have "skipRests sg i = i" by (subst skipRests.simps) auto
    then show ?thesis by simp
  qed
qed



lemma enteredThree_eq:
  "enteredThree = (loadedApp threeNotes)\<lparr>appState := PLAYING, audioContext := True, appStateRef := PLAYING,
      scheduledNodes := [\<lparr>frequency = 261.63, startAt = 0, stopAt = Some 1\<rparr>,
                         \<lparr>frequency = 293.66, startAt = 1, stopAt = Some 2\<rparr>,
                         \<lparr>frequency = 329.63, startAt = 2, stopAt = Some 3\<rparr>],
      scheduledUiCallbacks := [1, 2, 3, 4],
      pendingTimers := [\<lparr>timerId = 1, delayMs = 0, action = Highlight ''C4'' 0\<rparr>,
                        \<lparr>timerId = 2, delayMs = 1000, action = Highlight ''D4'' 1000\<rparr>,
                        \<lparr>timerId = 3, delayMs = 2000, action = Highlight ''E4'' 2000\<rparr>,
                        \<lparr>timerId = 4, delayMs = 3100, action = SongEnd\<rparr>],
      nextTimerId := 5\<rparr>"
  by (simp add: enteredThree_def concrete_defs)

lemma pausedTwo_eq:
  "pausedTwo = playingTwo\<lparr>appState := PAUSED, appStateRef := PAUSED, playbackProgressRef := 250,
      scheduledNodes := [], scheduledUiCallbacks := [], pendingTimers := []\<rparr>"
  by (simp add: pausedTwo_def playingTwo_eq concrete_defs)

lemma timing_highlightTimers:
  "map timing (highlightTimers i off sp ns) = map timing (highlightTimers j off sp ns)"
  by (induction ns arbitrary: i j) (simp_all add: timing_def)

lemma timing_planTimers:
  "map timing (planTimers i off sp sg) = map timing (planTimers j off sp sg)"
  using timing_highlightTimers [of i off sp "remaining off sg" j]
  by (simp add: planTimers_def endTimer_def timing_def)

lemma highlightTimers_ids_ge:
  "x \<in> set (highlightTimers i off sp ns) \<Longrightarrow> i \<le> timerId x"
  by (induction ns arbitrary: i) fastforce+

lemma planTimers_ids_ge: "x \<in> set (planTimers i off sp sg) \<Longrightarrow> i \<le> timerId x"
  by (auto simp: planTimers_def endTimer_def dest: highlightTimers_ids_ge split: if_splits)

lemma tracked_after_build:
  assumes "timersFresh s"
  shows "filter (\<lambda>x. timerId x \<in> timerId ` set (planTimers (nextTimerId s) off sp sg))
           (untracked s @ planTimers (nextTimerId s) off sp sg)
         = planTimers (nextTimerId s) off sp sg"
proof -
  have "filter (\<lambda>x. timerId x \<in> timerId ` set (planTimers (nextTimerId s) off sp sg)) (untracked s) = []"
    using assms planTimers_ids_ge [of _ "nextTimerId s" off sp sg]
    by (fastforce simp: filter_empty_conv timersFresh_def untracked_def list_all_iff)
  moreover have "filter (\<lambda>x. timerId x \<in> timerId ` set (planTimers (nextTimerId s) off sp sg))
      (planTimers (nextTimerId s) off sp sg) = planTimers (nextTimerId s) off sp sg"
    by (simp add: filter_id_conv)
  ultimately show ?thesis by simp
qed

lemma playingHeld_eq:
  "playingHeld = playingStrict\<lparr>activeNotes := {''E4''},
       manualNodes := [(''E4'', \<lparr>frequency = 329.63, startAt = 1/20, stopAt = None\<rparr>)]\<rparr>"
  by (simp add: playingHeld_def playingStrict_def [symmetric] run_def)
    (simp add: playingStrict_eq concrete_defs)

section \<open>Claims\<close>

text \<open>
  C1, as amended. The page does not offer a change of speed while playing: the speed
  control is disabled in that state. The speed-change step is the effect on the speed
  and the state. Run while playing with the multiplier that has been in force since the
  anchor, as when playing is entered, it stores the elapsed time that the animation loop
  derives at that instant, re-anchors the clock to now and rebuilds the plan from that
  offset, and the time derived right after is the time derived right before. A speed
  set while paused leaves the stored time as it is (the step does nothing in that
  state); the resume that follows builds the plan with the new multiplier from the
  stored time, and the time derived right after the resume is the stored time.
\<close>

theorem speed_step_keeps_derived_time:
  assumes "song s = Some sg" and "sg \<noteq> []" and "initializeAudioOk pf s" and "stopSafe pf s"
  shows "(appState s = PLAYING \<and> appStateRef s = PLAYING \<and> playbackSpeedRef s = playbackSpeed s \<longrightarrow>
            (\<exists>s'. speedChangeEffect pf now now t s = Returned s'
               \<and> appState s' = PLAYING
               \<and> playbackProgressRef s' = playbackProgress (animationLoop now s)
               \<and> playbackStartTime s' = now
               \<and> scheduledNodes s' = planNodes t (playbackProgressRef s') (playbackSpeed s) sg
               \<and> playbackProgress (animationLoop now (syncRefs s')) = playbackProgress (animationLoop now s)))
       \<and> (appState s = PAUSED \<longrightarrow>
            speedChangeEffect pf now1 now2 t1 (syncRefs (setPlaybackSpeed v s)) =
              Returned (syncRefs (setPlaybackSpeed v s))
            \<and> playbackProgressRef (syncRefs (setPlaybackSpeed v s)) = playbackProgressRef s
            \<and> (\<exists>s2. handlePlayPause pf now t (syncRefs (setPlaybackSpeed v s)) = Returned s2
                  \<and> appState s2 = PLAYING \<and> playbackSpeed s2 = v
                  \<and> playbackProgressRef s2 = playbackProgressRef s
                  \<and> playbackStartTime s2 = now
                  \<and> scheduledNodes s2 = planNodes t (playbackProgressRef s) v sg
                  \<and> playbackProgress (animationLoop now (syncRefs s2)) = playbackProgressRef s))"
proof -
  have i: "\<exists>s'. speedChangeEffect pf now now t s = Returned s'
               \<and> appState s' = PLAYING
               \<and> playbackProgressRef s' = playbackProgress (animationLoop now s)
               \<and> playbackStartTime s' = now
               \<and> scheduledNodes s' = planNodes t (playbackProgressRef s') (playbackSpeed s) sg
               \<and> playbackProgress (animationLoop now (syncRefs s')) = playbackProgress (animationLoop now s)"
    if p: "appState s = PLAYING" "appStateRef s = PLAYING" "playbackSpeedRef s = playbackSpeed s"
  proof -
    let ?cur = "playbackProgressRef s + (now - playbackStartTime s) * playbackSpeed s"
    let ?s1 = "s\<lparr>playbackStartTime := now, playbackProgressRef := ?cur\<rparr>"
    have a: "song ?s1 = Some sg" "initializeAudioOk pf ?s1" "stopSafe pf ?s1"
      using assms by (simp_all add: initializeAudioOk_def stopSafe_def)
    show ?thesis
      using p assms(2)
      by (simp add: speedChangeEffect_def Let_def scheduleSong_plan [OF a] animationLoop_def syncRefs_def)
  qed
  have ii: "speedChangeEffect pf now1 now2 t1 (syncRefs (setPlaybackSpeed v s)) =
              Returned (syncRefs (setPlaybackSpeed v s))
            \<and> playbackProgressRef (syncRefs (setPlaybackSpeed v s)) = playbackProgressRef s
            \<and> (\<exists>s2. handlePlayPause pf now t (syncRefs (setPlaybackSpeed v s)) = Returned s2
                  \<and> appState s2 = PLAYING \<and> playbackSpeed s2 = v
                  \<and> playbackProgressRef s2 = playbackProgressRef s
                  \<and> playbackStartTime s2 = now
                  \<and> scheduledNodes s2 = planNodes t (playbackProgressRef s) v sg
                  \<and> playbackProgress (animationLoop now (syncRefs s2)) = playbackProgressRef s)"
    if p: "appState s = PAUSED"
  proof -
    let ?s1 = "s\<lparr>playbackSpeed := v, appStateRef := PAUSED, playbackSpeedRef := v, playbackStartTime := now\<rparr>"
    have a: "song ?s1 = Some sg" "initializeAudioOk pf ?s1" "stopSafe pf ?s1"
      using assms by (simp_all add: initializeAudioOk_def stopSafe_def)
    show ?thesis
      using p assms(2)
      by (simp add: speedChangeEffect_def setPlaybackSpeed_def syncRefs_def handlePlayPause_def Let_def
          scheduleSong_plan [OF a] animationLoop_def)
  qed
  show ?thesis using i ii by blast
qed

theorem speed_step_keeps_derived_time_witness:
  "song enteredThree = Some threeNotes \<and> threeNotes \<noteq> []
   \<and> initializeAudioOk browser enteredThree \<and> stopSafe browser enteredThree
   \<and> appState enteredThree = PLAYING \<and> appStateRef enteredThree = PLAYING
   \<and> playbackSpeedRef enteredThree = playbackSpeed enteredThree
   \<and> playbackProgress (animationLoop 8 enteredThree) = 8
   \<and> (\<exists>s'. speedChangeEffect browser 8 8 (1/128) enteredThree = Returned s'
          \<and> playbackProgressRef s' = 8 \<and> playbackStartTime s' = 8
          \<and> playbackProgress (animationLoop 8 (syncRefs s')) = 8)
   \<and> song pausedTwo = Some twoNotes \<and> twoNotes \<noteq> []
   \<and> initializeAudioOk browser pausedTwo \<and> stopSafe browser pausedTwo
   \<and> appState pausedTwo = PAUSED \<and> playbackProgressRef pausedTwo = 250
   \<and> (\<exists>s2. handlePlayPause browser 1000 1 (syncRefs (setPlaybackSpeed (1/2) pausedTwo)) = Returned s2
          \<and> appState s2 = PLAYING \<and> playbackSpeed s2 = 1/2
          \<and> playbackProgressRef s2 = 250
          \<and> playbackProgress (animationLoop 1000 (syncRefs s2)) = 250)"
proof -
  have a1: "song enteredThree = Some threeNotes" and a2: "threeNotes \<noteq> []"
    and a3: "initializeAudioOk browser enteredThree"
    and a5: "appState enteredThree = PLAYING" and a6: "appStateRef enteredThree = PLAYING"
    and a7: "playbackSpeedRef enteredThree = playbackSpeed enteredThree"
    and a8: "playbackProgress (animationLoop 8 enteredThree) = 8"
    by (simp_all add: enteredThree_eq animationLoop_def concrete_defs)
  have a4: "stopSafe browser enteredThree" by (simp add: stopSafe_def browser_def)
  have b1: "song pausedTwo = Some twoNotes" and b2: "twoNotes \<noteq> []"
    and b3: "initializeAudioOk browser pausedTwo"
    and b5: "appState pausedTwo = PAUSED" and b6: "playbackProgressRef pausedTwo = 250"
    by (simp_all add: pausedTwo_eq playingTwo_eq concrete_defs)
  have b4: "stopSafe browser pausedTwo" by (simp add: stopSafe_def browser_def)
  from speed_step_keeps_derived_time [OF a1 a2 a3 a4, where now = 8 and t = "1/128"] a5 a6 a7 a8
  have c1: "\<exists>s'. speedChangeEffect browser 8 8 (1/128) enteredThree = Returned s'
          \<and> playbackProgressRef s' = 8 \<and> playbackStartTime s' = 8
          \<and> playbackProgress (animationLoop 8 (syncRefs s')) = 8"
    by auto
  from speed_step_keeps_derived_time [OF b1 b2 b3 b4, where now = 1000 and t = 1 and v = "1/2"
      and ?now1.0 = 0 and ?now2.0 = 0 and ?t1.0 = 0] b5
  have c2: "\<exists>s2. handlePlayPause browser 1000 1 (syncRefs (setPlaybackSpeed (1/2) pausedTwo)) = Returned s2
          \<and> appState s2 = PLAYING \<and> playbackSpeed s2 = 1/2
          \<and> playbackProgressRef s2 = 250
          \<and> playbackProgress (animationLoop 1000 (syncRefs s2)) = 250"
    unfolding b6 by blast
  show ?thesis using a1 a2 a3 a4 a5 a6 a7 a8 b1 b2 b3 b4 b5 b6 c1 c2 by blast
qed

text \<open>
  C1 as stated fails when the speed is set while the state is PLAYING, a call that the
  page does not offer. The three-note song plays at speed 1 from time 0; at 1000 ms the
  animation loop derives an elapsed song time of 1000. The speed is then set to 0.5 at
  that instant. The effect scales the interval by the new multiplier, so it stores 500,
  and the time derived right after is 500, not 1000. (The lemma \<open>speed_effect_capture\<close>
  gives the stored value in general.)
\<close>

theorem speed_change_while_playing_counterexample:
  "appState playingThree = PLAYING \<and> playbackSpeedRef playingThree = 1
   \<and> playbackProgress (animationLoop 1000 playingThree) = 1000
   \<and> slowedThree = run browser noLib [SelectSpeed (1/2), RefsEffect, SpeedEffect 1000 1000 1] playingThree
   \<and> appState slowedThree = PLAYING
   \<and> playbackProgressRef slowedThree = 500
   \<and> playbackProgress (animationLoop 1000 slowedThree) = 500"
proof -
  have a: "slowedThree = run browser noLib [SelectSpeed (1/2), RefsEffect, SpeedEffect 1000 1000 1] playingThree"
    by (simp add: slowedThree_def)
  have b: "appState playingThree = PLAYING \<and> playbackSpeedRef playingThree = 1
      \<and> playbackProgress (animationLoop 1000 playingThree) = 1000"
    by (simp add: playingThree_eq animationLoop_def concrete_defs)
  have c: "appState slowedThree = PLAYING \<and> playbackProgressRef slowedThree = 500
      \<and> playbackProgress (animationLoop 1000 slowedThree) = 500"
    by (simp add: slowedThree_eq playingThree_eq animationLoop_def)
  from a b c show ?thesis by blast
qed

text \<open>
  C2, as amended. With no song loaded, the play/pause control is not a no-op in any
  state other than PLAYING: \<open>scheduleSong\<close> returns at once, so the progress, the
  highlight, the scheduled nodes and the timers stay as they are, but the handler
  re-anchors the clock and sets the transport state to PLAYING. The handler has no
  test on the state besides PLAYING; the page offers the control only with a song.
\<close>

theorem play_without_song:
  assumes "song s = None" and "appState s \<noteq> PLAYING"
  shows "handlePlayPause pf now t s = Returned (s\<lparr>playbackStartTime := now, appState := PLAYING\<rparr>)"
  using assms by (simp add: handlePlayPause_def scheduleSong_def Let_def)

theorem play_without_song_witness:
  "song initialApp = None \<and> appState initialApp \<noteq> PLAYING
   \<and> handlePlayPause browser 0 0 initialApp = Returned (initialApp\<lparr>playbackStartTime := 0, appState := PLAYING\<rparr>)"
proof -
  have h1: "song initialApp = None" by (simp add: initialApp_def)
  have h2: "appState initialApp \<noteq> PLAYING" by (simp add: initialApp_def)
  from play_without_song [OF h1 h2, of browser 0 0] show ?thesis using h1 h2 by simp
qed

text \<open>
  C2 as stated fails at the initial state: play/pause while IDLE, with no song, changes
  the transport state to PLAYING.
\<close>

theorem play_while_idle_counterexample:
  "appState initialApp = IDLE \<and> song initialApp = None
   \<and> appState (stateOf (handlePlayPause browser 0 0 initialApp)) = PLAYING"
  by (simp add: concrete_defs)

text \<open>
  C3, as amended. In learning mode, when a correct key press finds no further note
  that is not a rest, the handler shows the completion message, arms the feedback
  timer and the completion timer (2000 ms) and leaves the cursor and the state as they
  are; when the completion timer fires, the state is LOADED, the message is cleared and
  the cursor is 0. That is the index of the first note that is not a rest exactly when
  the song does not start with a rest. (The hypothesis on the timer ids holds in every
  state that a sequence of events reaches, by \<open>reachable_timersFresh\<close>.)
\<close>

theorem learning_completion_resets_to_zero:
  assumes "appState s = LEARNING" and "song s = Some sg" and "learningNoteIndex s < length sg"
    and "n = noteName (sg ! learningNoteIndex s)"
    and "length sg \<le> skipRests sg (learningNoteIndex s + 1)"
    and "timersFresh s"
  shows "completionMessage (onNoteDown pf t n s) = Some completionText
       \<and> appState (onNoteDown pf t n s) = LEARNING
       \<and> learningNoteIndex (onNoteDown pf t n s) = learningNoteIndex s
       \<and> pendingTimers (onNoteDown pf t n s) =
            pendingTimers s @
            [\<lparr>timerId = nextTimerId s, delayMs = 300, action = ClearCorrectPress\<rparr>,
             \<lparr>timerId = Suc (nextTimerId s), delayMs = 2000, action = LearningDone\<rparr>]
       \<and> appState (fireTimer (Suc (nextTimerId s)) (onNoteDown pf t n s)) = LOADED
       \<and> learningNoteIndex (fireTimer (Suc (nextTimerId s)) (onNoteDown pf t n s)) = 0
       \<and> completionMessage (fireTimer (Suc (nextTimerId s)) (onNoteDown pf t n s)) = None
       \<and> ((firstNonRest sg = 0) = (noteName (sg ! 0) \<noteq> ''Rest''))"
proof -
  have fnr: "(firstNonRest sg = 0) = (noteName (sg ! 0) \<noteq> ''Rest'')"
    using assms(3) by (cases sg) (simp_all add: firstNonRest_def)
  have f: "find (\<lambda>x. timerId x = Suc (nextTimerId s)) (pendingTimers s) = None"
    using assms(6) by (simp add: find_fresh_none)
  have g: "filter (\<lambda>x. timerId x \<noteq> Suc (nextTimerId s)) (pendingTimers s) = pendingTimers s"
    using assms(6) by (simp add: filter_fresh_id)
  show ?thesis
    using assms(1-5) fnr
    by (simp add: onNoteDown_def playNote_def initializeAudio_def Let_def setTimeout_def
        fireTimer_def find_append_list f g clearTimeout_def)
qed

theorem learning_completion_resets_to_zero_witness:
  "appState learningRestThenNote = LEARNING \<and> song learningRestThenNote = Some restThenNote
   \<and> learningNoteIndex learningRestThenNote < length restThenNote
   \<and> ''C4'' = noteName (restThenNote ! learningNoteIndex learningRestThenNote)
   \<and> length restThenNote \<le> skipRests restThenNote (learningNoteIndex learningRestThenNote + 1)
   \<and> timersFresh learningRestThenNote
   \<and> completionMessage (onNoteDown browser 1 ''C4'' learningRestThenNote) = Some completionText
   \<and> appState (fireTimer 2 (onNoteDown browser 1 ''C4'' learningRestThenNote)) = LOADED
   \<and> learningNoteIndex (fireTimer 2 (onNoteDown browser 1 ''C4'' learningRestThenNote)) = 0"
proof -
  have h1: "appState learningRestThenNote = LEARNING"
    and h2: "song learningRestThenNote = Some restThenNote"
    and h3: "learningNoteIndex learningRestThenNote < length restThenNote"
    and h4: "''C4'' = noteName (restThenNote ! learningNoteIndex learningRestThenNote)"
    and h5: "length restThenNote \<le> skipRests restThenNote (learningNoteIndex learningRestThenNote + 1)"
    and h6: "timersFresh learningRestThenNote"
    and n: "nextTimerId learningRestThenNote = 1"
    by (simp_all add: learningRestThenNote_eq timersFresh_def concrete_defs)
  have c: "completionMessage (onNoteDown browser 1 ''C4'' learningRestThenNote) = Some completionText
      \<and> appState (fireTimer (Suc (nextTimerId learningRestThenNote)) (onNoteDown browser 1 ''C4'' learningRestThenNote)) = LOADED
      \<and> learningNoteIndex (fireTimer (Suc (nextTimerId learningRestThenNote)) (onNoteDown browser 1 ''C4'' learningRestThenNote)) = 0"
    using learning_completion_resets_to_zero [OF h1 h2 h3 h4 h5 h6, where pf = browser and t = 1]
    by blast
  have two: "Suc (nextTimerId learningRestThenNote) = 2" by (simp add: n)
  show ?thesis using h1 h2 h3 h4 h5 h6 c unfolding two by blast
qed

text \<open>
  C3 as stated fails on the song made of a rest and then C4: after the completion the
  cursor is 0, the index of the rest, while the first note that is not a rest is at 1.
\<close>

theorem learning_completion_counterexample:
  "appState learningRestThenNote = LEARNING
   \<and> learningNoteIndex learningRestThenNote = 1
   \<and> completionMessage (onNoteDown browser 1 ''C4'' learningRestThenNote) = Some completionText
   \<and> map action (pendingTimers (onNoteDown browser 1 ''C4'' learningRestThenNote)) = [ClearCorrectPress, LearningDone]
   \<and> appState (fireTimer 2 (onNoteDown browser 1 ''C4'' learningRestThenNote)) = LOADED
   \<and> learningNoteIndex (fireTimer 2 (onNoteDown browser 1 ''C4'' learningRestThenNote)) = 0
   \<and> firstNonRest restThenNote = 1"
  by (simp add: learningRestThenNote_eq firstNonRest_def concrete_defs)

text \<open>
  C4, as amended. When every note of the song starts before the offset, \<open>scheduleSong\<close>
  allocates no tone source and arms no highlight timer. For a song with no note it arms
  nothing at all and sets the transport state to LOADED itself. For a song with notes
  it arms exactly one timer, the end-of-song timer computed from the last note, and
  leaves the transport state and the progress as they were: when that timer fires, the
  state is LOADED, the stored and the displayed progress are 0 and the highlight is
  cleared. (The hypothesis on the timer ids holds in every state that a sequence of
  events reaches, by \<open>reachable_timersFresh\<close>.)
\<close>

theorem schedule_past_every_note:
  assumes "song s = Some sg" and "initializeAudioOk pf s" and "stopSafe pf s"
    and "timersFresh s" and "list_all (\<lambda>n. startTime n < off) sg"
  shows "\<exists>s'. scheduleSong pf t off s = Returned s'
           \<and> scheduledNodes s' = []
           \<and> (if sg = []
              then scheduledUiCallbacks s' = [] \<and> pendingTimers s' = untracked s \<and> appState s' = LOADED
              else scheduledUiCallbacks s' = [nextTimerId s]
                 \<and> pendingTimers s' = untracked s @ [endTimer (nextTimerId s) off (playbackSpeed s) sg]
                 \<and> appState s' = appState s
                 \<and> playbackProgressRef s' = playbackProgressRef s
                 \<and> playbackProgress s' = playbackProgress s
                 \<and> appState (fireTimer (nextTimerId s) s') = LOADED
                 \<and> playbackProgressRef (fireTimer (nextTimerId s) s') = 0
                 \<and> playbackProgress (fireTimer (nextTimerId s) s') = 0
                 \<and> highlightedNoteInfo (fireTimer (nextTimerId s) s') = noHighlight
                 \<and> pendingTimers (fireTimer (nextTimerId s) s') = untracked s)"
proof -
  have rem: "remaining off sg = []" using assms(5) by (rule remaining_all_before)
  show ?thesis
    unfolding scheduleSong_plan [OF assms(1-3)]
    by (simp add: planNodes_def planTimers_def rem fireTimer_def find_untracked_fresh [OF assms(4)]
        endTimer_def clearTimeout_def untracked_fresh [OF assms(4)])
qed

theorem schedule_past_every_note_witness:
  "song pausedAt100 = Some oneNote \<and> initializeAudioOk browser pausedAt100
   \<and> stopSafe browser pausedAt100 \<and> timersFresh pausedAt100
   \<and> list_all (\<lambda>n. startTime n < 100) oneNote
   \<and> playbackProgressRef pausedAt100 = 100
   \<and> (\<exists>s'. scheduleSong browser (1/10) 100 pausedAt100 = Returned s'
         \<and> scheduledNodes s' = [] \<and> scheduledUiCallbacks s' = [5]
         \<and> map action (pendingTimers s') = [SongEnd]
         \<and> appState s' = PAUSED
         \<and> playbackProgressRef s' = 100
         \<and> appState (fireTimer 5 s') = LOADED
         \<and> playbackProgressRef (fireTimer 5 s') = 0
         \<and> playbackProgress (fireTimer 5 s') = 0)"
proof -
  have h1: "song pausedAt100 = Some oneNote" by (simp add: pausedAt100_eq concrete_defs)
  have h2: "initializeAudioOk browser pausedAt100" by (simp add: pausedAt100_eq concrete_defs)
  have h3: "stopSafe browser pausedAt100" by (simp add: stopSafe_def browser_def)
  have h4: "timersFresh pausedAt100" by (simp add: timersFresh_def pausedAt100_eq concrete_defs)
  have h5: "list_all (\<lambda>n. startTime n < 100) oneNote" by (simp add: oneNote_def mkNote_def)
  have st: "appState pausedAt100 = PAUSED" "nextTimerId pausedAt100 = 5" "untracked pausedAt100 = []"
    "playbackProgressRef pausedAt100 = 100"
    by (simp_all add: pausedAt100_eq untracked_def concrete_defs)
  have ne: "oneNote \<noteq> []" by (simp add: oneNote_def)
  from schedule_past_every_note [OF h1 h2 h3 h4 h5, of "1/10"]
  show ?thesis using h1 h2 h3 h4 h5 by (auto simp: st ne endTimer_def)
qed

text \<open>
  C4 as stated fails for a song with notes: the one-note song paused at 100 ms, built
  from offset 100 (past the start of its only note), keeps the state PAUSED and has an
  end-of-song timer armed for 500 ms later; the play handler then sets PLAYING.
\<close>

theorem schedule_past_every_note_counterexample:
  "oneNote \<noteq> [] \<and> list_all (\<lambda>n. startTime n < 100) oneNote
   \<and> song pausedAt100 = Some oneNote
   \<and> returns (scheduleSong browser (1/10) 100 pausedAt100)
   \<and> appState (stateOf (scheduleSong browser (1/10) 100 pausedAt100)) = PAUSED
   \<and> map action (pendingTimers (stateOf (scheduleSong browser (1/10) 100 pausedAt100))) = [SongEnd]
   \<and> map delayMs (pendingTimers (stateOf (scheduleSong browser (1/10) 100 pausedAt100))) = [500]
   \<and> appState (stateOf (handlePlayPause browser 100 (1/10) pausedAt100)) = PLAYING"
  by (simp add: pausedAt100_eq concrete_defs)



text \<open>
  C6, as amended. Pause and then resume at the same instant, from a playing state with
  a song: both calls return; the pause stores the elapsed time derived at that instant
  in \<open>playbackProgressRef\<close>, the resume leaves it there, and the time derived right
  after the resume is the same value. The plan after the resume is the plan of the
  schedule builder for that offset: tones and timers for the notes that start at or
  after it, timed from the new anchor; the notes that started before the position, one
  that is still sounding included, are not in the new plan. The plan is the one that
  was in force before the pause (the same tones, the same timer delays and actions)
  when no time has passed since that plan was built: the pause comes at the anchor
  instant.
\<close>

theorem pause_resume_same_instant:
  assumes "appState s = PLAYING" and "song s = Some sg"
    and "initializeAudioOk pf s" and "stopSafe pf s"
  shows "\<exists>s1 s2. handlePlayPause pf now t s = Returned s1
           \<and> handlePlayPause pf now t s1 = Returned s2
           \<and> appState s1 = PAUSED \<and> appState s2 = PLAYING
           \<and> playbackProgressRef s1 = playbackProgressRef s + (now - playbackStartTime s) * playbackSpeed s
           \<and> playbackProgressRef s2 = playbackProgressRef s1
           \<and> playbackProgress (animationLoop now (syncRefs s2)) = playbackProgressRef s1
           \<and> scheduledNodes s2 = planNodes t (playbackProgressRef s1) (playbackSpeed s) sg
           \<and> pendingTimers s2 =
                untracked s @ planTimers (nextTimerId s) (playbackProgressRef s1) (playbackSpeed s) sg
           \<and> scheduledUiCallbacks s2 =
                map timerId (planTimers (nextTimerId s) (playbackProgressRef s1) (playbackSpeed s) sg)
           \<and> (now = playbackStartTime s \<and> timersFresh s
               \<and> scheduledNodes s = planNodes t (playbackProgressRef s) (playbackSpeed s) sg
               \<and> map timing (tracked s) =
                   map timing (planTimers k (playbackProgressRef s) (playbackSpeed s) sg) \<longrightarrow>
                scheduledNodes s2 = scheduledNodes s
                \<and> map timing (tracked s2) = map timing (tracked s))"
proof -
  let ?P = "playbackProgressRef s + (now - playbackStartTime s) * playbackSpeed s"
  let ?s0 = "s\<lparr>playbackProgressRef := ?P\<rparr>"
  let ?s1 = "s\<lparr>playbackProgressRef := ?P, scheduledNodes := [], scheduledUiCallbacks := [],
      pendingTimers := untracked s, manualNodes := [], activeNotes := {}, appState := PAUSED\<rparr>"
  have safe0: "stopSafe pf ?s0" using assms(4) by (simp add: stopSafe_def)
  have p1: "handlePlayPause pf now t s = Returned ?s1"
    using assms(1) by (simp add: handlePlayPause_def Let_def stopAllSounds_returns [OF safe0] untracked_def)
  let ?s1' = "?s1\<lparr>playbackStartTime := now\<rparr>"
  have a: "song ?s1' = Some sg" "initializeAudioOk pf ?s1'" "stopSafe pf ?s1'"
    using assms(2,3) by (simp_all add: initializeAudioOk_def stopSafe_def)
  have u: "untracked ?s1' = untracked s" by (simp add: untracked_def)
  obtain s2 where p2: "handlePlayPause pf now t ?s1 = Returned s2"
    and s2: "s2 = ?s1'\<lparr>audioContext := True,
       scheduledNodes := planNodes t ?P (playbackSpeed s) sg,
       scheduledUiCallbacks := map timerId (planTimers (nextTimerId s) ?P (playbackSpeed s) sg),
       pendingTimers := untracked s @ planTimers (nextTimerId s) ?P (playbackSpeed s) sg,
       nextTimerId := nextTimerId s + length (planTimers (nextTimerId s) ?P (playbackSpeed s) sg),
       manualNodes := [], activeNotes := {}, appState := PLAYING\<rparr>"
    by (simp add: handlePlayPause_def Let_def scheduleSong_plan [OF a] u)
  have same: "scheduledNodes s2 = scheduledNodes s \<and> map timing (tracked s2) = map timing (tracked s)"
    if "now = playbackStartTime s" and f: "timersFresh s"
      and "scheduledNodes s = planNodes t (playbackProgressRef s) (playbackSpeed s) sg"
      and "map timing (tracked s) =
             map timing (planTimers k (playbackProgressRef s) (playbackSpeed s) sg)"
  proof -
    from that(1) have P: "?P = playbackProgressRef s" by simp
    have "tracked s2 = planTimers (nextTimerId s) (playbackProgressRef s) (playbackSpeed s) sg"
      using tracked_after_build [OF f, of "playbackProgressRef s" "playbackSpeed s" sg]
      by (simp add: s2 P tracked_def)
    then show ?thesis
      using that(3,4) timing_planTimers [of "nextTimerId s" "playbackProgressRef s" "playbackSpeed s" sg k]
      by (simp add: s2 P)
  qed
  show ?thesis
    apply (rule exI [of _ ?s1], rule exI [of _ s2])
    using p1 p2 same by (simp add: s2 animationLoop_def syncRefs_def)
qed

theorem pause_resume_same_instant_witness:
  "appState playingTwo = PLAYING \<and> song playingTwo = Some twoNotes
   \<and> initializeAudioOk browser playingTwo \<and> stopSafe browser playingTwo
   \<and> (\<exists>s1 s2. handlePlayPause browser 250 (1/4) playingTwo = Returned s1
         \<and> handlePlayPause browser 250 (1/4) s1 = Returned s2
         \<and> playbackProgressRef s1 = 250 \<and> playbackProgressRef s2 = 250
         \<and> playbackProgress (animationLoop 250 (syncRefs s2)) = 250
         \<and> scheduledNodes s2 = planNodes (1/4) 250 1 twoNotes)
   \<and> 0 = playbackStartTime playingTwo \<and> timersFresh playingTwo
   \<and> scheduledNodes playingTwo = planNodes 0 (playbackProgressRef playingTwo) (playbackSpeed playingTwo) twoNotes
   \<and> map timing (tracked playingTwo) =
        map timing (planTimers 4 (playbackProgressRef playingTwo) (playbackSpeed playingTwo) twoNotes)
   \<and> (\<exists>s1 s2. handlePlayPause browser 0 0 playingTwo = Returned s1
         \<and> handlePlayPause browser 0 0 s1 = Returned s2
         \<and> playbackProgressRef s2 = playbackProgressRef playingTwo
         \<and> scheduledNodes s2 = scheduledNodes playingTwo
         \<and> map timing (tracked s2) = map timing (tracked playingTwo))"
proof -
  have h1: "appState playingTwo = PLAYING" and h2: "song playingTwo = Some twoNotes"
    and h3: "initializeAudioOk browser playingTwo"
    and sp: "playbackSpeed playingTwo = 1" and pr: "playbackProgressRef playingTwo = 0"
    and st: "playbackStartTime playingTwo = 0"
    by (simp_all add: playingTwo_eq concrete_defs)
  have h4: "stopSafe browser playingTwo" by (simp add: stopSafe_def browser_def)
  have g1: "0 = playbackStartTime playingTwo" by (simp add: st)
  have g2: "timersFresh playingTwo" by (simp add: timersFresh_def playingTwo_eq concrete_defs)
  have g3: "scheduledNodes playingTwo =
      planNodes 0 (playbackProgressRef playingTwo) (playbackSpeed playingTwo) twoNotes"
    by (simp add: sp pr) (simp add: playingTwo_eq planNodes_def remaining_def toneFor_def concrete_defs)
  have g4: "map timing (tracked playingTwo) =
      map timing (planTimers 4 (playbackProgressRef playingTwo) (playbackSpeed playingTwo) twoNotes)"
    by (simp add: sp pr)
      (simp add: playingTwo_eq tracked_def timing_def planTimers_def endTimer_def remaining_def concrete_defs)
  from pause_resume_same_instant [OF h1 h2 h3 h4, where now = 250 and t = "1/4"]
  obtain s1 s2 where a:
    "handlePlayPause browser 250 (1/4) playingTwo = Returned s1"
    "handlePlayPause browser 250 (1/4) s1 = Returned s2"
    "playbackProgressRef s1 = 250" "playbackProgressRef s2 = 250"
    "playbackProgress (animationLoop 250 (syncRefs s2)) = 250"
    "scheduledNodes s2 = planNodes (1/4) 250 1 twoNotes"
    by (auto simp: sp pr st)
  from pause_resume_same_instant [OF h1 h2 h3 h4, where now = 0 and t = 0 and k = 4]
  obtain r1 r2 where b:
    "handlePlayPause browser 0 0 playingTwo = Returned r1"
    "handlePlayPause browser 0 0 r1 = Returned r2"
    "playbackProgressRef r2 = playbackProgressRef playingTwo"
    "scheduledNodes r2 = scheduledNodes playingTwo"
    "map timing (tracked r2) = map timing (tracked playingTwo)"
    using g1 g2 g3 g4 by (auto simp: st)
  from a b show ?thesis using h1 h2 h3 h4 g1 g2 g3 g4 by blast
qed

text \<open>
  C6 as stated fails: the two-note song playing from 0 at speed 1, paused at 250 ms
  and resumed at once. \<open>playbackProgressRef\<close> goes from 0 to 250; the plan before had the
  tones of C4 and D4 and highlight delays 0 and 500, the plan after has the tone of D4
  alone (C4, half played, is not resumed) and its highlight at delay 250.
\<close>

theorem pause_resume_counterexample:
  "appState playingTwo = PLAYING \<and> playbackSpeed playingTwo = 1
   \<and> resumedTwo = run browser noLib [ClickPlayPause 250 (1/4), ClickPlayPause 250 (1/4)] playingTwo
   \<and> playbackProgressRef playingTwo = 0 \<and> playbackProgressRef resumedTwo = 250
   \<and> map startAt (scheduledNodes playingTwo) = [0, 1/2]
   \<and> map startAt (scheduledNodes resumedTwo) = [1/2]
   \<and> map delayMs (pendingTimers playingTwo) = [0, 500, 1100]
   \<and> map delayMs (pendingTimers resumedTwo) = [250, 850]"
proof -
  have a: "resumedTwo = run browser noLib [ClickPlayPause 250 (1/4), ClickPlayPause 250 (1/4)] playingTwo"
    by (simp add: resumedTwo_def)
  have b: "appState playingTwo = PLAYING \<and> playbackSpeed playingTwo = 1
      \<and> playbackProgressRef playingTwo = 0
      \<and> map startAt (scheduledNodes playingTwo) = [0, 1/2]
      \<and> map delayMs (pendingTimers playingTwo) = [0, 500, 1100]"
    by (simp add: playingTwo_eq concrete_defs)
  have c: "playbackProgressRef resumedTwo = 250
      \<and> map startAt (scheduledNodes resumedTwo) = [1/2]
      \<and> map delayMs (pendingTimers resumedTwo) = [250, 850]"
    by (simp add: resumedTwo_eq)
  from a b c show ?thesis by blast
qed

text \<open>
  C7, at the failing input, on a browser whose \<open>oscillator.stop\<close> rejects a second call.
  C4 is pressed and released; for the 100 ms of its fade the node is still in the map
  with its stop requested. A teardown in that window throws out of the manual loop of
  \<open>stopAllSounds\<close>, which has no \<open>try\<close>, and leaves the map as it was; so do the
  handlers that tear down, and a second \<open>stopNote\<close> of the same key. The loop over the
  scheduled nodes, which has the \<open>try\<close>, returns on the same browser although every
  scheduled oscillator has had its stop requested. (The lemmas \<open>teardown_twice\<close> and
  \<open>teardown_of_scheduled_nodes_returns\<close> give the part of the claim that holds.)
\<close>

theorem manual_double_stop_escapes:
  "releasedC4 = run strictBrowser noLib [KeyDown 0 ''C4'', KeyUp (1/100) ''C4''] (loadedApp oneNote)
   \<and> \<not> returns (stopAllSounds strictBrowser (1/20) releasedC4)
   \<and> manualNodes (stateOf (stopAllSounds strictBrowser (1/20) releasedC4)) = manualNodes releasedC4
   \<and> \<not> returns (stopNote strictBrowser (1/20) ''C4'' releasedC4)
   \<and> \<not> returns (handleToggleLearning strictBrowser (1/20) releasedC4)
   \<and> \<not> returns (handlePlayPause strictBrowser 50 (1/20) releasedC4)
   \<and> returns (stopAllSounds strictBrowser (1/20) playingStrict)"
  by (simp add: releasedC4_eq playingStrict_eq concrete_defs releasedC4_def [symmetric])

text \<open>
  C8. Entering learning mode on a song that has a note which is not a rest, from any
  state other than LEARNING, with audio available: the handler returns, the state is
  LEARNING, the cursor is the index of the first note that is not a rest (every
  note before it is a rest, the note at it is not), the highlight effect of the next
  render sets the highlighted note to that note, and no timer is armed: the tracked
  timers are cleared, the pending ones are those that were not tracked, and no timer
  id is used.
\<close>

theorem enter_learning_first_real_note:
  assumes "song s = Some sg" and "appState s \<noteq> LEARNING"
    and "initializeAudioOk pf s" and "stopSafe pf s"
    and "list_ex (\<lambda>n. noteName n \<noteq> ''Rest'') sg"
  shows "\<exists>s'. handleToggleLearning pf t s = Returned s'
           \<and> appState s' = LEARNING
           \<and> learningNoteIndex s' = firstNonRest sg
           \<and> firstNonRest sg < length sg
           \<and> noteName (sg ! firstNonRest sg) \<noteq> ''Rest''
           \<and> (\<forall>i < firstNonRest sg. noteName (sg ! i) = ''Rest'')
           \<and> highlightedNoteInfo (learningHighlightEffect s') =
                \<lparr>hlNote = Some (noteName (sg ! firstNonRest sg)),
                 hlStartTime = Some (startTime (sg ! firstNonRest sg))\<rparr>
           \<and> scheduledUiCallbacks s' = []
           \<and> pendingTimers s' = untracked s
           \<and> nextTimerId s' = nextTimerId s"
proof -
  have s0: "initializeAudio pf s = s\<lparr>audioContext := True\<rparr>"
    using assms(3) by (cases "audioContext s") (simp_all add: initializeAudio_def initializeAudioOk_def)
  have safe: "stopSafe pf (s\<lparr>audioContext := True\<rparr>)"
    using assms(4) by (simp add: stopSafe_def)
  have lt: "firstNonRest sg < length sg" using assms(5) by (rule firstNonRest_less)
  have nr: "noteName (sg ! firstNonRest sg) \<noteq> ''Rest''"
    using skipRests_not_rest [of sg 0] lt by (simp add: skipRests_first)
  show ?thesis
    using assms(1-3) lt nr
    by (simp add: handleToggleLearning_def resetPlayback_def s0 stopAllSounds_returns [OF safe]
        Let_def skipRests_first learningHighlightEffect_def untracked_def firstNonRest_before)
qed

text \<open>The song of the claim: two rests, then C4. The cursor starts at index 2.\<close>

theorem enter_learning_first_real_note_witness:
  "song (loadedApp restsFirst) = Some restsFirst \<and> appState (loadedApp restsFirst) \<noteq> LEARNING
   \<and> initializeAudioOk browser (loadedApp restsFirst) \<and> stopSafe browser (loadedApp restsFirst)
   \<and> list_ex (\<lambda>n. noteName n \<noteq> ''Rest'') restsFirst
   \<and> (\<exists>s'. handleToggleLearning browser 0 (loadedApp restsFirst) = Returned s'
          \<and> appState s' = LEARNING \<and> learningNoteIndex s' = 2
          \<and> highlightedNoteInfo (learningHighlightEffect s') = \<lparr>hlNote = Some ''C4'', hlStartTime = Some 1000\<rparr>
          \<and> scheduledUiCallbacks s' = [] \<and> pendingTimers s' = [])"
proof -
  have h1: "song (loadedApp restsFirst) = Some restsFirst" by (simp add: concrete_defs)
  have h2: "appState (loadedApp restsFirst) \<noteq> LEARNING" by (simp add: concrete_defs)
  have h3: "initializeAudioOk browser (loadedApp restsFirst)" by (simp add: concrete_defs)
  have h4: "stopSafe browser (loadedApp restsFirst)" by (simp add: stopSafe_def browser_def)
  have h5: "list_ex (\<lambda>n. noteName n \<noteq> ''Rest'') restsFirst" by (simp add: restsFirst_def mkNote_def)
  have f: "firstNonRest restsFirst = 2" by (simp add: firstNonRest_def restsFirst_def mkNote_def)
  have u: "untracked (loadedApp restsFirst) = []" by (simp add: untracked_def concrete_defs)
  have n: "restsFirst ! 2 = mkNote ''C4'' 500 1000" by (simp add: restsFirst_def)
  from enter_learning_first_real_note [OF h1 h2 h3 h4 h5, of 0]
  show ?thesis using h1 h2 h3 h4 h5 by (auto simp: f u n mkNote_def)
qed

text \<open>
  C9, as amended. A pause call that returns leaves the state PAUSED with the map of
  manual nodes and the active notes both empty. The piano stays usable while paused:
  a key pressed then sounds and is in the active notes, in state PAUSED.
\<close>

theorem pause_clears_manual_notes:
  assumes "appState s = PLAYING" and "stopSafe pf s"
  shows "\<exists>s'. handlePlayPause pf now t s = Returned s'
           \<and> appState s' = PAUSED \<and> manualNodes s' = [] \<and> activeNotes s' = {}
           \<and> (initializeAudioOk pf s' \<and> n \<noteq> ''Rest'' \<longrightarrow>
                appState (onNoteDown pf t' n s') = PAUSED
                \<and> activeNotes (onNoteDown pf t' n s') = {n})"
proof -
  have safe: "stopSafe pf (s\<lparr>playbackProgressRef :=
      playbackProgressRef s + (now - playbackStartTime s) * playbackSpeed s\<rparr>)"
    using assms(2) by (simp add: stopSafe_def)
  show ?thesis
    using assms(1)
    by (auto simp: handlePlayPause_def Let_def stopAllSounds_returns [OF safe]
        onNoteDown_def playNote_def initializeAudio_def initializeAudioOk_def split: option.splits)
qed

text \<open>
  The one-note song playing with the key E4 held: the pause empties the map and the
  active notes, and the key C4 pressed afterwards is in the active notes again.
\<close>

theorem pause_clears_manual_notes_witness:
  "playingHeld = run strictBrowser noLib (clickPlay @ [KeyDown (1/20) ''E4'']) (loadedApp oneNote)
   \<and> appState playingHeld = PLAYING \<and> stopSafe strictBrowser playingHeld
   \<and> map fst (manualNodes playingHeld) = [''E4''] \<and> activeNotes playingHeld = {''E4''}
   \<and> (\<exists>s'. handlePlayPause strictBrowser 100 (1/10) playingHeld = Returned s'
          \<and> appState s' = PAUSED \<and> manualNodes s' = [] \<and> activeNotes s' = {}
          \<and> appState (onNoteDown strictBrowser (1/5) ''C4'' s') = PAUSED
          \<and> activeNotes (onNoteDown strictBrowser (1/5) ''C4'' s') = {''C4''})"
proof -
  have d: "playingHeld = run strictBrowser noLib (clickPlay @ [KeyDown (1/20) ''E4'']) (loadedApp oneNote)"
    by (simp add: playingHeld_def)
  have h1: "appState playingHeld = PLAYING"
    and m: "map fst (manualNodes playingHeld) = [''E4'']" and a: "activeNotes playingHeld = {''E4''}"
    by (simp_all add: playingHeld_eq playingStrict_eq)
  have h2: "stopSafe strictBrowser playingHeld"
    by (simp add: playingHeld_eq stopSafe_def strictBrowser_def)
  have ok: "initializeAudioOk strictBrowser x" for x by (simp add: initializeAudioOk_def strictBrowser_def)
  from pause_clears_manual_notes [OF h1 h2, where n = "''C4''" and now = 100 and t = "1/10" and t' = "1/5"]
  obtain s' where "handlePlayPause strictBrowser 100 (1/10) playingHeld = Returned s'"
    "appState s' = PAUSED" "manualNodes s' = []" "activeNotes s' = {}"
    "appState (onNoteDown strictBrowser (1/5) ''C4'' s') = PAUSED"
    "activeNotes (onNoteDown strictBrowser (1/5) ''C4'' s') = {''C4''}"
    using ok by auto
  then show ?thesis using d h1 h2 m a by blast
qed

text \<open>
  C9 as stated fails: load the one-note song, play, pause after 100 ms, press C4. The
  state is PAUSED and the active notes are not empty.
\<close>

theorem paused_with_active_note_counterexample:
  "pausedHoldingC4 =
     run browser noLib (clickPlay @ [ClickPlayPause 100 (1/10), RefsEffect, KeyDown (1/5) ''C4'']) (loadedApp oneNote)
   \<and> appState pausedHoldingC4 = PAUSED \<and> activeNotes pausedHoldingC4 = {''C4''}"
proof -
  have "pausedHoldingC4 =
     run browser noLib (clickPlay @ [ClickPlayPause 100 (1/10), RefsEffect, KeyDown (1/5) ''C4'']) (loadedApp oneNote)"
    by (simp add: pausedHoldingC4_def pausedAt100_def run_def)
  moreover have "appState pausedHoldingC4 = PAUSED \<and> activeNotes pausedHoldingC4 = {''C4''}"
    by (simp add: pausedHoldingC4_eq pausedAt100_eq)
  ultimately show ?thesis by simp
qed

text \<open>
  C10. The note-generation boundary never delivers an empty song. Whatever the
  generator answers and whatever the library functions do, neither version of
  \<open>getSongNotes\<close> resolves to an empty array; \<open>handleLoad\<close> installs a song exactly
  when the result is not null and leaves the song alone otherwise; and after any
  sequence of events from the initial state the song is never the empty list, so the
  zero-note branch of \<open>scheduleSong\<close> is not reached from generation.
\<close>

theorem generated_song_never_empty:
  "getSongNotes lib r \<noteq> Resolved (Some [])
   \<and> getSongNotes2 lib r \<noteq> Resolved (Some [])
   \<and> song (handleLoadEnd p s) = (case p of Resolved (Some notes) \<Rightarrow> Some notes | _ \<Rightarrow> song s)
   \<and> song (run pf lib es initialApp) \<noteq> Some []"
proof -
  have "song initialApp \<noteq> Some []" by (simp add: initialApp_def)
  then have "song (run pf lib es initialApp) \<noteq> Some []" by (rule run_song_not_empty)
  then show ?thesis
    by (simp add: getSongNotes_not_empty getSongNotes2_not_empty song_handleLoadEnd)
qed

end
